theory Spec2Isabelle
  imports Complex_Main
begin

section \<open>Values of the program\<close>

text \<open>
  The program is a NumPy script. Its floating-point numbers are modelled as real numbers
  without rounding. An array of reals cannot hold \<open>inf\<close> or \<open>nan\<close>: in the softmax
  head, where \<open>np.exp\<close> can overflow or underflow and a column sum can be zero, the
  model says so with the outcome \<open>NotANumber\<close>; everywhere else, theorems about a
  quotient or a root assume that the divisor is nonzero and the radicand positive.
  Every exception the script can raise is a value of \<open>error\<close>, and a function that can
  raise returns \<open>error + 'a\<close>. \<open>NotANumber\<close> is no exception: NumPy warns and carries on
  with \<open>inf\<close> or \<open>nan\<close> in the array, and the model follows the computation no further.
\<close>

datatype error =
  KeyError | ValueError | IndexError | ZeroDivisionError | NameError | UnboundLocalError | TypeError
  | NotANumber

definition bnd :: "error + 'a \<Rightarrow> ('a \<Rightarrow> error + 'b) \<Rightarrow> error + 'b" where
  "bnd m f = (case m of Inl e \<Rightarrow> Inl e | Inr x \<Rightarrow> f x)"

text \<open>
  A two-dimensional \<open>numpy.ndarray\<close>: its shape and its entries. Only the entries
  \<open>item A i j\<close> with \<open>i < nrows A\<close> and \<open>j < ncols A\<close> belong to the array.
\<close>

record 'a ndarray =
  nrows :: nat
  ncols :: nat
  item :: "nat \<Rightarrow> nat \<Rightarrow> 'a"

text \<open>\<open>np.array\<close> of a nested list of rows, and \<open>ndarray.tolist\<close>.\<close>

definition np_array :: "'a list list \<Rightarrow> 'a ndarray" where
  "np_array xs =
     \<lparr>nrows = length xs, ncols = (case xs of [] \<Rightarrow> 0 | r # _ \<Rightarrow> length r),
      item = (\<lambda>i j. xs ! i ! j)\<rparr>"

definition tolist :: "'a ndarray \<Rightarrow> 'a list list" where
  "tolist A = map (\<lambda>i. map (\<lambda>j. item A i j) [0..<ncols A]) [0..<nrows A]"

text \<open>Two arrays are the same array when shape and entries agree.\<close>

definition same_array :: "'a ndarray \<Rightarrow> 'a ndarray \<Rightarrow> bool" where
  "same_array A B \<longleftrightarrow>
     nrows A = nrows B \<and> ncols A = ncols B \<and>
     (\<forall>i<nrows A. \<forall>j<ncols A. item A i j = item B i j)"

text \<open>A Python \<open>dict\<close> with string keys; \<open>d[k]\<close> raises \<open>KeyError\<close> on a missing key.\<close>

type_synonym 'v dict = "string \<rightharpoonup> 'v"

definition getitem :: "'v dict \<Rightarrow> string \<Rightarrow> error + 'v" where
  "getitem d k = (case d k of None \<Rightarrow> Inl KeyError | Some v \<Rightarrow> Inr v)"

definition len :: "'v dict \<Rightarrow> nat" where
  "len d = card (dom d)"

text \<open>\<open>xs[i]\<close> on a Python list, for an index that is not negative.\<close>

definition list_get :: "'a list \<Rightarrow> nat \<Rightarrow> error + 'a" where
  "list_get xs i = (if i < length xs then Inr (xs ! i) else Inl IndexError)"

text \<open>\<open>str(n)\<close> of a non-negative integer: its decimal digits.\<close>

definition digit :: "nat \<Rightarrow> char" where
  "digit d = ''0123456789'' ! d"

function str :: "nat \<Rightarrow> string" where
  "str n = (if n < 10 then [digit n] else str (n div 10) @ [digit (n mod 10)])"
  by pat_completeness auto
termination
  by (relation "measure id") auto

declare str.simps [simp del]

section \<open>NumPy operations\<close>

text \<open>
  Broadcasting of two shapes along one axis: equal lengths, or one of them is 1.
  Anything else raises \<open>ValueError\<close>.
\<close>

definition bc_dim :: "nat \<Rightarrow> nat \<Rightarrow> error + nat" where
  "bc_dim a b =
     (if a = b then Inr a else if a = 1 then Inr b else if b = 1 then Inr a
      else Inl ValueError)"

definition bc_ix :: "nat \<Rightarrow> nat \<Rightarrow> nat" where
  "bc_ix n i = (if n = 1 then 0 else i)"

text \<open>An elementwise operation of two arrays (\<open>A + B\<close>, \<open>A - B\<close>, \<open>A * B\<close>, \<open>A / B\<close>).\<close>

definition np_binop ::
  "('a \<Rightarrow> 'b \<Rightarrow> 'c) \<Rightarrow> 'a ndarray \<Rightarrow> 'b ndarray \<Rightarrow> error + 'c ndarray" where
  "np_binop f A B =
     bnd (bc_dim (nrows A) (nrows B)) (\<lambda>r.
     bnd (bc_dim (ncols A) (ncols B)) (\<lambda>c.
     Inr \<lparr>nrows = r, ncols = c,
          item = (\<lambda>i j. f (item A (bc_ix (nrows A) i) (bc_ix (ncols A) j))
                           (item B (bc_ix (nrows B) i) (bc_ix (ncols B) j)))\<rparr>))"

text \<open>An elementwise operation with a scalar, or a unary one (\<open>c * A\<close>, \<open>np.exp(A)\<close>).\<close>

definition np_map :: "('a \<Rightarrow> 'b) \<Rightarrow> 'a ndarray \<Rightarrow> 'b ndarray" where
  "np_map f A = \<lparr>nrows = nrows A, ncols = ncols A, item = (\<lambda>i j. f (item A i j))\<rparr>"

text \<open>\<open>np.zeros((r, c))\<close>; a negative dimension raises \<open>ValueError\<close>.\<close>

definition np_zeros :: "nat \<Rightarrow> int \<Rightarrow> error + real ndarray" where
  "np_zeros r c =
     (if c < 0 then Inl ValueError
      else Inr \<lparr>nrows = r, ncols = nat c, item = (\<lambda>i j. 0)\<rparr>)"

definition np_zeros_like :: "real ndarray \<Rightarrow> real ndarray" where
  "np_zeros_like A = \<lparr>nrows = nrows A, ncols = ncols A, item = (\<lambda>i j. 0)\<rparr>"

text \<open>\<open>A.T\<close>, \<open>np.dot\<close> of two matrices (the inner dimensions must agree), and the sums.\<close>

definition np_transpose :: "'a ndarray \<Rightarrow> 'a ndarray" where
  "np_transpose A = \<lparr>nrows = ncols A, ncols = nrows A, item = (\<lambda>i j. item A j i)\<rparr>"

definition np_dot :: "real ndarray \<Rightarrow> real ndarray \<Rightarrow> error + real ndarray" where
  "np_dot A B =
     (if ncols A = nrows B
      then Inr \<lparr>nrows = nrows A, ncols = ncols B,
                item = (\<lambda>i j. \<Sum>k<ncols A. item A i k * item B k j)\<rparr>
      else Inl ValueError)"

definition np_sum :: "real ndarray \<Rightarrow> real" where
  "np_sum A = (\<Sum>i<nrows A. \<Sum>j<ncols A. item A i j)"

text \<open>\<open>np.sum(A, axis=0, keepdims=True)\<close> and \<open>np.sum(A, axis=1, keepdims=True)\<close>.\<close>

definition np_sum_axis0 :: "real ndarray \<Rightarrow> real ndarray" where
  "np_sum_axis0 A = \<lparr>nrows = 1, ncols = ncols A, item = (\<lambda>i j. \<Sum>k<nrows A. item A k j)\<rparr>"

definition np_sum_axis1 :: "real ndarray \<Rightarrow> real ndarray" where
  "np_sum_axis1 A = \<lparr>nrows = nrows A, ncols = 1, item = (\<lambda>i j. \<Sum>k<ncols A. item A i k)\<rparr>"

text \<open>
  \<open>np.exp\<close> on a 64-bit float: the result overflows to \<open>inf\<close> from the midpoint between
  the largest float and \<open>2\<^sup>1\<^sup>0\<^sup>2\<^sup>4\<close> on, and it underflows to \<open>0\<close> up to half the
  smallest positive float, \<open>2\<^sup>-\<^sup>1\<^sup>0\<^sup>7\<^sup>5\<close> (an argument of about \<open>-745.13\<close>).
\<close>

definition np_exp :: "real \<Rightarrow> error + real" where
  "np_exp x =
     (if 2 ^ 1024 - 2 ^ 970 \<le> exp x then Inl NotANumber
      else if exp x \<le> 1 / 2 ^ 1075 then Inr 0
      else Inr (exp x))"

definition np_exp_array :: "real ndarray \<Rightarrow> error + real ndarray" where
  "np_exp_array A =
     (if \<exists>i<nrows A. \<exists>j<ncols A. np_exp (item A i j) = Inl NotANumber then Inl NotANumber
      else Inr (np_map (\<lambda>x. case np_exp x of Inl e \<Rightarrow> 0 | Inr y \<Rightarrow> y) A))"

text \<open>
  \<open>A / B\<close> where a divisor can be zero: the quotient then holds \<open>inf\<close> or \<open>nan\<close>.
\<close>

definition np_divide :: "real ndarray \<Rightarrow> real ndarray \<Rightarrow> error + real ndarray" where
  "np_divide A B =
     bnd (np_binop (/) A B) (\<lambda>C.
     if \<exists>i<nrows C. \<exists>j<ncols C. item B (bc_ix (nrows B) i) (bc_ix (ncols B) j) = 0
     then Inl NotANumber else Inr C)"

text \<open>\<open>np.max(A)\<close> over all entries; an array without entries raises \<open>ValueError\<close>.\<close>

definition np_max :: "real ndarray \<Rightarrow> error + real" where
  "np_max A =
     (if nrows A = 0 \<or> ncols A = 0 then Inl ValueError
      else Inr (Max ((\<lambda>(i, j). item A i j) ` ({..<nrows A} \<times> {..<ncols A}))))"

text \<open>
  \<open>np.split(A, sections, axis=1)\<close> with an integer \<open>sections\<close>: the remainder
  \<open>N % sections\<close> is taken first (\<open>ZeroDivisionError\<close> for 0), a nonzero remainder
  raises \<open>ValueError\<close>, and so does a negative number of sections.
\<close>

definition np_split :: "'a ndarray \<Rightarrow> int \<Rightarrow> error + 'a ndarray list" where
  "np_split A sections =
     (if sections = 0 then Inl ZeroDivisionError
      else if int (ncols A) mod sections \<noteq> 0 then Inl ValueError
      else if sections \<le> 0 then Inl ValueError
      else let w = ncols A div nat sections in
           Inr (map (\<lambda>s. \<lparr>nrows = nrows A, ncols = w, item = (\<lambda>i j. item A i (s * w + j))\<rparr>)
                    [0..<nat sections]))"

text \<open>
  An integer index \<open>k\<close> into an axis of length \<open>n\<close>: a negative index counts from the
  end, and an index outside \<open>[-n, n)\<close> raises \<open>IndexError\<close>.
\<close>

definition norm_index :: "nat \<Rightarrow> int \<Rightarrow> error + nat" where
  "norm_index n k =
     (if - int n \<le> k \<and> k < int n then Inr (nat (if k < 0 then k + int n else k))
      else Inl IndexError)"

text \<open>
  \<open>A[rows, cols] = v\<close> with two index arrays of the same length: one entry is written
  for each pair. The row indices come from \<open>np.arange\<close> and are in range.
\<close>

fun put_each :: "'a ndarray \<Rightarrow> (nat \<times> int) list \<Rightarrow> 'a \<Rightarrow> error + 'a ndarray" where
  "put_each A [] v = Inr A"
| "put_each A ((i, k) # ps) v =
     bnd (norm_index (ncols A) k) (\<lambda>j.
     put_each (A\<lparr>item := (item A)(i := (item A i)(j := v))\<rparr>) ps v)"

section \<open>Activation functions\<close>

text \<open>\<open>relu\<close>: \<open>A = np.maximum(0, Z)\<close>, and the cache \<open>{"Z": Z}\<close>.\<close>

definition relu :: "real ndarray \<Rightarrow> real ndarray \<times> real ndarray dict" where
  "relu Z = (np_map (max 0) Z, [''Z'' \<mapsto> Z])"

text \<open>
  \<open>relu_der\<close>: a copy of \<open>dA\<close> in which \<open>dZ[Z < 0] = 0\<close>. The boolean mask must have
  the shape of \<open>dZ\<close>, otherwise the assignment raises \<open>IndexError\<close>.
\<close>

definition relu_der :: "real ndarray \<Rightarrow> real ndarray dict \<Rightarrow> error + real ndarray" where
  "relu_der dA cache =
     (let dZ = dA in
      bnd (getitem cache ''Z'') (\<lambda>Z.
      if nrows Z = nrows dZ \<and> ncols Z = ncols dZ
      then Inr (dZ\<lparr>item := (\<lambda>i j. if item Z i j < 0 then 0 else item dZ i j)\<rparr>)
      else Inl IndexError))"

text \<open>\<open>linear\<close> and \<open>linear_der\<close>: the identity activation.\<close>

definition linear :: "real ndarray \<Rightarrow> real ndarray \<times> real ndarray dict" where
  "linear Z = (Z, [''Z'' \<mapsto> Z])"

definition linear_der :: "real ndarray \<Rightarrow> real ndarray dict \<Rightarrow> real ndarray" where
  "linear_der dA cache = dA"

section \<open>One-hot encoding\<close>

text \<open>
  \<open>np.array\<close> of a nested list of Python integers needs rows of one length
  (\<open>ValueError\<close> otherwise).
\<close>

definition rectangular :: "'a list list \<Rightarrow> bool" where
  "rectangular Y \<longleftrightarrow> (\<forall>r\<in>set Y. length r = length (hd Y))"

text \<open>
  The flattened labels as an index array. \<open>np.array\<close> chooses the dtype from the values:
  a floating-point dtype for a list without elements, \<open>int64\<close> when every value fits,
  \<open>uint64\<close> when every value lies in \<open>[0, 2\<^sup>6\<^sup>4)\<close>, and no integer dtype otherwise.
  NumPy refuses an index array that has no integer dtype (\<open>IndexError\<close>), and it casts a
  \<open>uint64\<close> index to a signed one, so that a value from \<open>2\<^sup>6\<^sup>3\<close> on wraps around.
\<close>

definition index_array :: "int list \<Rightarrow> error + int list" where
  "index_array Yf =
     (if Yf = [] then Inl IndexError
      else if \<forall>v\<in>set Yf. - (2 ^ 63) \<le> v \<and> v < 2 ^ 63 then Inr Yf
      else if \<forall>v\<in>set Yf. 0 \<le> v \<and> v < 2 ^ 64
        then Inr (map (\<lambda>v. if 2 ^ 63 \<le> v then v - 2 ^ 64 else v) Yf)
      else Inl IndexError)"

text \<open>
  \<open>one_hot(Y, num_classes)\<close> is always called with the nested list \<open>Y.tolist()\<close>.
  \<open>np.array(Y).flatten()\<close> is the list of labels; the result has one row per label and
  \<open>num_classes\<close> columns.
\<close>

definition one_hot :: "int list list \<Rightarrow> int \<Rightarrow> error + real ndarray" where
  "one_hot Y num_classes =
     (if \<not> rectangular Y then Inl ValueError
      else
        let Yf = concat Y in
        bnd (np_zeros (length Yf) num_classes) (\<lambda>Y_one_hot.
        bnd (index_array Yf) (\<lambda>indices.
        put_each Y_one_hot (zip [0..<length Yf] indices) 1)))"


definition wrap_index :: "nat \<Rightarrow> int \<Rightarrow> nat" where
  "wrap_index n k = nat (if k < 0 then k + int n else k)"

section \<open>Softmax and cross-entropy\<close>

text \<open>The loss is a scalar, or the empty list \<open>[]\<close> when no labels are given.\<close>

datatype loss = EmptyList | Scalar real

text \<open>
  \<open>Y.astype(int)\<close> on an array of integers: every value is kept, as a signed 64-bit
  integer (a value outside that range wraps around).
\<close>

definition astype_int :: "int ndarray \<Rightarrow> int ndarray" where
  "astype_int Y = np_map (\<lambda>v. (v + 2 ^ 63) mod 2 ^ 64 - 2 ^ 63) Y"

text \<open>
  \<open>softmax_cross_entropy_loss(Z, num_classes, Y)\<close>. \<open>Y\<close> holds integer labels; the
  default \<open>np.array([])\<close> is the array without rows. \<open>np.exp(Z - np.max(Z))\<close> is
  written twice in the source and has one value.
\<close>

definition softmax_cross_entropy_loss ::
  "real ndarray \<Rightarrow> int \<Rightarrow> int ndarray \<Rightarrow> error + (real ndarray \<times> real ndarray dict \<times> loss)" where
  "softmax_cross_entropy_loss Z num_classes Y =
     (let Y_new = astype_int Y; Y_L = tolist Y_new in
      bnd (np_max Z) (\<lambda>m.
      bnd (np_exp_array (np_map (\<lambda>z. z - m) Z)) (\<lambda>E.
      bnd (np_divide E (np_sum_axis0 E)) (\<lambda>A.
      let cache = [''A'' \<mapsto> A] in
      if nrows Y = 0 then Inr (A, cache, EmptyList)
      else
        bnd (one_hot Y_L num_classes) (\<lambda>one_hot_Y.
        let Y_sm = np_transpose one_hot_Y in
        bnd (np_binop (*) Y_sm (np_map (\<lambda>a. ln (a + 1 / 10 ^ 9)) A)) (\<lambda>P.
        Inr (A, cache, Scalar (- np_sum P / real (ncols A)))))))))"

definition softmax_cross_entropy_loss_der ::
  "int ndarray \<Rightarrow> int \<Rightarrow> real ndarray dict \<Rightarrow> error + real ndarray" where
  "softmax_cross_entropy_loss_der Y num_classes cache =
     (let Y_new = astype_int Y; Y_L = tolist Y_new in
      bnd (one_hot Y_L num_classes) (\<lambda>one_hot_Y.
      let Y_smd = np_transpose one_hot_Y in
      bnd (getitem cache ''A'') (\<lambda>A.
      np_binop (-) A Y_smd)))"



section \<open>Layers\<close>

text \<open>
  \<open>initialize_multilayer_weights\<close> draws every matrix from \<open>np.random.normal\<close> after
  \<open>np.random.seed(0)\<close>. The generator is a parameter: \<open>normal g scale r c\<close> gives the
  entries of an \<open>(r, c)\<close> draw and the next generator state. Dimensions are natural
  numbers; \<open>2.0 / net_dims[l]\<close> raises \<open>ZeroDivisionError\<close> for a dimension 0.
\<close>

fun init_loop ::
  "('g \<Rightarrow> real \<Rightarrow> nat \<Rightarrow> nat \<Rightarrow> (nat \<Rightarrow> nat \<Rightarrow> real) \<times> 'g) \<Rightarrow> nat list \<Rightarrow> nat list \<Rightarrow>
   real ndarray dict \<times> 'g \<Rightarrow> error + (real ndarray dict \<times> 'g)" where
  "init_loop normal net_dims [] (parameters, g) = Inr (parameters, g)"
| "init_loop normal net_dims (l # ls) (parameters, g) =
     (if net_dims ! l = 0 then Inl ZeroDivisionError
      else
        let (w, g1) = normal g (sqrt (2 / real (net_dims ! l))) (net_dims ! (l + 1)) (net_dims ! l);
            parameters1 = parameters(''W'' @ str (l + 1) \<mapsto>
              \<lparr>nrows = net_dims ! (l + 1), ncols = net_dims ! l, item = w\<rparr>);
            (b, g2) = normal g1 (sqrt (2 / real (net_dims ! l))) (net_dims ! (l + 1)) 1;
            parameters2 = parameters1(''b'' @ str (l + 1) \<mapsto>
              \<lparr>nrows = net_dims ! (l + 1), ncols = 1, item = b\<rparr>)
        in init_loop normal net_dims ls (parameters2, g2))"

definition initialize_multilayer_weights ::
  "('g \<Rightarrow> real \<Rightarrow> nat \<Rightarrow> nat \<Rightarrow> (nat \<Rightarrow> nat \<Rightarrow> real) \<times> 'g) \<Rightarrow> 'g \<Rightarrow> nat list \<Rightarrow>
   error + real ndarray dict" where
  "initialize_multilayer_weights normal seed0 net_dims =
     (let numLayers = length net_dims in
      bnd (init_loop normal net_dims [0..<numLayers - 1] (Map.empty, seed0)) (\<lambda>(parameters, g).
      Inr parameters))"

definition linear_forward ::
  "real ndarray \<Rightarrow> real ndarray \<Rightarrow> real ndarray \<Rightarrow> error + (real ndarray \<times> real ndarray dict)" where
  "linear_forward A W b =
     bnd (np_dot W A) (\<lambda>WA.
     bnd (np_binop (+) WA b) (\<lambda>Z.
     Inr (Z, [''A'' \<mapsto> A])))"

text \<open>
  \<open>layer_forward\<close>: an activation other than \<open>"relu"\<close> and \<open>"linear"\<close> leaves
  \<open>act_cache\<close> unbound.
\<close>

definition layer_forward ::
  "real ndarray \<Rightarrow> real ndarray \<Rightarrow> real ndarray \<Rightarrow> string \<Rightarrow>
   error + (real ndarray \<times> real ndarray dict dict)" where
  "layer_forward A_prev W b activation =
     bnd (linear_forward A_prev W b) (\<lambda>(Z, lin_cache).
     if activation = ''relu'' then
       (let (A, act_cache) = relu Z
        in Inr (A, [''lin_cache'' \<mapsto> lin_cache, ''act_cache'' \<mapsto> act_cache]))
     else if activation = ''linear'' then
       (let (A, act_cache) = linear Z
        in Inr (A, [''lin_cache'' \<mapsto> lin_cache, ''act_cache'' \<mapsto> act_cache]))
     else Inl UnboundLocalError)"

fun forward_loop ::
  "nat list \<Rightarrow> real ndarray dict \<Rightarrow> real ndarray \<times> real ndarray dict dict list \<Rightarrow>
   error + (real ndarray \<times> real ndarray dict dict list)" where
  "forward_loop [] parameters (A, caches) = Inr (A, caches)"
| "forward_loop (l # ls) parameters (A, caches) =
     bnd (getitem parameters (''W'' @ str l)) (\<lambda>W.
     bnd (getitem parameters (''b'' @ str l)) (\<lambda>b.
     bnd (layer_forward A W b ''relu'') (\<lambda>(A', cache).
     forward_loop ls parameters (A', caches @ [cache]))))"

definition multi_layer_forward ::
  "real ndarray \<Rightarrow> real ndarray dict \<Rightarrow> error + (real ndarray \<times> real ndarray dict dict list)" where
  "multi_layer_forward X parameters =
     (let L = len parameters div 2 in
      bnd (forward_loop [1..<L] parameters (X, [])) (\<lambda>(A, caches).
      bnd (getitem parameters (''W'' @ str L)) (\<lambda>W.
      bnd (getitem parameters (''b'' @ str L)) (\<lambda>b.
      bnd (layer_forward A W b ''linear'') (\<lambda>(AL, cache).
      Inr (AL, caches @ [cache]))))))"

text \<open>\<open>linear_backward\<close>; the parameter \<open>b\<close> is not used.\<close>

definition linear_backward ::
  "real ndarray \<Rightarrow> real ndarray dict \<Rightarrow> real ndarray \<Rightarrow> real ndarray \<Rightarrow>
   error + (real ndarray \<times> real ndarray \<times> real ndarray)" where
  "linear_backward dZ cache W b =
     bnd (getitem cache ''A'') (\<lambda>A.
     bnd (np_dot (np_transpose W) dZ) (\<lambda>dA_prev.
     bnd (np_dot dZ (np_transpose A)) (\<lambda>dZA.
     let dW = np_map (\<lambda>x. x / real (ncols A)) dZA;
         db = np_map (\<lambda>x. x / real (ncols A)) (np_sum_axis1 dZ)
     in Inr (dA_prev, dW, db))))"

text \<open>
  \<open>layer_backward\<close>: \<open>sigmoid_der\<close> and \<open>tanh_der\<close> are not defined anywhere
  (\<open>NameError\<close>), and any other activation leaves \<open>dZ\<close> unbound.
\<close>

definition layer_backward ::
  "real ndarray \<Rightarrow> real ndarray dict dict \<Rightarrow> real ndarray \<Rightarrow> real ndarray \<Rightarrow> string \<Rightarrow>
   error + (real ndarray \<times> real ndarray \<times> real ndarray)" where
  "layer_backward dA cache W b activation =
     bnd (getitem cache ''lin_cache'') (\<lambda>lin_cache.
     bnd (getitem cache ''act_cache'') (\<lambda>act_cache.
     bnd (if activation = ''sigmoid'' then Inl NameError
          else if activation = ''tanh'' then Inl NameError
          else if activation = ''relu'' then relu_der dA act_cache
          else if activation = ''linear'' then Inr (linear_der dA act_cache)
          else Inl UnboundLocalError) (\<lambda>dZ.
     linear_backward dZ lin_cache W b)))"

fun backward_loop ::
  "nat list \<Rightarrow> real ndarray dict dict list \<Rightarrow> real ndarray dict \<Rightarrow>
   real ndarray \<times> real ndarray dict \<times> string \<Rightarrow> error + real ndarray dict" where
  "backward_loop [] caches parameters (dA, gradients, activation) = Inr gradients"
| "backward_loop (l # ls) caches parameters (dA, gradients, activation) =
     bnd (list_get caches (l - 1)) (\<lambda>cache.
     bnd (getitem parameters (''W'' @ str l)) (\<lambda>W.
     bnd (getitem parameters (''b'' @ str l)) (\<lambda>b.
     bnd (layer_backward dA cache W b activation) (\<lambda>(dA', dW, db).
     backward_loop ls caches parameters
       (dA', gradients(''dW'' @ str l \<mapsto> dW, ''db'' @ str l \<mapsto> db), ''relu'')))))"

definition multi_layer_backward ::
  "real ndarray \<Rightarrow> real ndarray dict dict list \<Rightarrow> real ndarray dict \<Rightarrow>
   error + real ndarray dict" where
  "multi_layer_backward dAL caches parameters =
     (let L = length caches in
      backward_loop (rev [1..<L + 1]) caches parameters (dAL, Map.empty, ''linear''))"

section \<open>The update rule\<close>

fun velocity_loop ::
  "nat list \<Rightarrow> real ndarray dict \<Rightarrow> real ndarray dict \<times> real ndarray dict \<Rightarrow>
   error + (real ndarray dict \<times> real ndarray dict)" where
  "velocity_loop [] parameters (velocity, svelocity) = Inr (velocity, svelocity)"
| "velocity_loop (i # rest) parameters (velocity, svelocity) =
     bnd (getitem parameters (''W'' @ str (i + 1))) (\<lambda>W.
     bnd (getitem parameters (''b'' @ str (i + 1))) (\<lambda>b.
     bnd (getitem parameters (''W'' @ str (i + 1))) (\<lambda>W'.
     bnd (getitem parameters (''b'' @ str (i + 1))) (\<lambda>b'.
     velocity_loop rest parameters
       (velocity(''dW'' @ str (i + 1) \<mapsto> np_zeros_like W, ''db'' @ str (i + 1) \<mapsto> np_zeros_like b),
        svelocity(''dW'' @ str (i + 1) \<mapsto> np_zeros_like W', ''db'' @ str (i + 1) \<mapsto> np_zeros_like b'))))))"

definition initialize_velocity ::
  "real ndarray dict \<Rightarrow> error + (real ndarray dict \<times> real ndarray dict)" where
  "initialize_velocity parameters =
     (let Length = len parameters div 2 in
      velocity_loop [0..<Length] parameters (Map.empty, Map.empty))"


text \<open>
  One pass of the loop of \<open>update_parameters_velocity\<close>, statement by statement. The
  dictionaries \<open>vel_cor\<close> and \<open>svel_cor\<close> are local and only hold the two corrected
  moments of the current layer.
\<close>

fun update_loop ::
  "nat list \<Rightarrow> real ndarray dict \<Rightarrow> nat \<Rightarrow> real \<Rightarrow> real \<Rightarrow> real \<Rightarrow> real \<Rightarrow>
   real ndarray dict \<times> real ndarray dict \<times> real ndarray dict \<Rightarrow>
   error + (real ndarray dict \<times> real ndarray dict \<times> real ndarray dict)" where
  "update_loop [] gradients t beta1 beta2 epsilon learning_rate (parameters, velocity, svelocity) =
     Inr (parameters, velocity, svelocity)"
| "update_loop (i # rest) gradients t beta1 beta2 epsilon learning_rate (parameters, velocity, svelocity) =
     bnd (getitem velocity (''dW'' @ str (i + 1))) (\<lambda>vW.
     bnd (getitem gradients (''dW'' @ str (i + 1))) (\<lambda>gW.
     bnd (np_binop (+) (np_map (\<lambda>x. beta2 * x) vW) (np_map (\<lambda>x. (1 - beta2) * x) gW)) (\<lambda>vW'.
     let velocity = velocity(''dW'' @ str (i + 1) \<mapsto> vW') in
     bnd (getitem velocity (''db'' @ str (i + 1))) (\<lambda>vb.
     bnd (getitem gradients (''db'' @ str (i + 1))) (\<lambda>gb.
     bnd (np_binop (+) (np_map (\<lambda>x. beta2 * x) vb) (np_map (\<lambda>x. (1 - beta2) * x) gb)) (\<lambda>vb'.
     let velocity = velocity(''db'' @ str (i + 1) \<mapsto> vb') in
     bnd (getitem velocity (''dW'' @ str (i + 1))) (\<lambda>vW2.
     let vel_cor_dW = np_map (\<lambda>x. x / (1 - beta1 ^ t)) vW2 in
     bnd (getitem velocity (''db'' @ str (i + 1))) (\<lambda>vb2.
     let vel_cor_db = np_map (\<lambda>x. x / (1 - beta1 ^ t)) vb2 in
     bnd (getitem svelocity (''dW'' @ str (i + 1))) (\<lambda>sW.
     bnd (getitem gradients (''dW'' @ str (i + 1))) (\<lambda>gW2.
     bnd (np_binop (+) (np_map (\<lambda>x. beta2 * x) sW) (np_map (\<lambda>x. (1 - beta2) * x ^ 2) gW2)) (\<lambda>sW'.
     let svelocity = svelocity(''dW'' @ str (i + 1) \<mapsto> sW') in
     bnd (getitem svelocity (''db'' @ str (i + 1))) (\<lambda>sb.
     bnd (getitem gradients (''db'' @ str (i + 1))) (\<lambda>gb2.
     bnd (np_binop (+) (np_map (\<lambda>x. beta2 * x) sb) (np_map (\<lambda>x. (1 - beta2) * x ^ 2) gb2)) (\<lambda>sb'.
     let svelocity = svelocity(''db'' @ str (i + 1) \<mapsto> sb') in
     bnd (getitem svelocity (''dW'' @ str (i + 1))) (\<lambda>sW2.
     let svel_cor_dW = np_map (\<lambda>x. x / (1 - beta2 ^ t)) sW2 in
     bnd (getitem svelocity (''db'' @ str (i + 1))) (\<lambda>sb2.
     let svel_cor_db = np_map (\<lambda>x. x / (1 - beta2 ^ t)) sb2 in
     bnd (getitem parameters (''W'' @ str (i + 1))) (\<lambda>W.
     bnd (np_binop (/) (np_map (\<lambda>x. learning_rate * x) vel_cor_dW)
                       (np_map (\<lambda>x. sqrt (x + epsilon)) svel_cor_dW)) (\<lambda>stepW.
     bnd (np_binop (-) W stepW) (\<lambda>W'.
     let parameters = parameters(''W'' @ str (i + 1) \<mapsto> W') in
     bnd (getitem parameters (''b'' @ str (i + 1))) (\<lambda>b.
     bnd (np_binop (/) (np_map (\<lambda>x. learning_rate * x) vel_cor_db)
                       (np_map (\<lambda>x. sqrt (x + epsilon)) svel_cor_db)) (\<lambda>stepb.
     bnd (np_binop (-) b stepb) (\<lambda>b'.
     let parameters = parameters(''b'' @ str (i + 1) \<mapsto> b') in
     update_loop rest gradients t beta1 beta2 epsilon learning_rate
       (parameters, velocity, svelocity)))))))))))))))))))))))"

text \<open>
  \<open>update_parameters_velocity\<close>: \<open>alpha\<close> is computed from Python floats, so a zero
  denominator raises \<open>ZeroDivisionError\<close>; \<open>alpha\<close> is returned and used nowhere else.
\<close>

definition update_parameters_velocity ::
  "real ndarray dict \<Rightarrow> real ndarray dict \<Rightarrow> int \<Rightarrow> real ndarray dict \<Rightarrow> real ndarray dict \<Rightarrow>
   nat \<Rightarrow> real \<Rightarrow> real \<Rightarrow> real \<Rightarrow> real \<Rightarrow> real \<Rightarrow>
   error + (real ndarray dict \<times> real \<times> real ndarray dict \<times> real ndarray dict)" where
  "update_parameters_velocity parameters gradients epoch velocity svelocity t
       beta1 beta2 epsilon learning_rate decay_rate =
     (if 1 + decay_rate * of_int epoch = 0 then Inl ZeroDivisionError
      else
        let alpha = learning_rate * (1 / (1 + decay_rate * of_int epoch));
            L = len parameters div 2
        in bnd (update_loop [0..<L] gradients t beta1 beta2 epsilon learning_rate
                  (parameters, velocity, svelocity)) (\<lambda>(parameters, velocity, svelocity).
           Inr (parameters, alpha, velocity, svelocity)))"

section \<open>The training loop\<close>

text \<open>The variables of \<open>multi_layer_network\<close> that change while it runs.\<close>

record train_state =
  st_parameters :: "real ndarray dict"
  st_v :: "real ndarray dict"
  st_sv :: "real ndarray dict"
  st_t :: nat
  st_alpha :: real
  st_cost :: "loss option"
  st_costs :: "loss list"
  st_vcosts :: "loss list"

text \<open>
  The body of the loop over the batches. \<open>num_classes\<close>, \<open>beta1\<close>, \<open>beta2\<close> and
  \<open>epsilon\<close> are the constants that \<open>multi_layer_network\<close> sets.
\<close>

definition train_batch ::
  "real ndarray list \<Rightarrow> int ndarray list \<Rightarrow> real \<Rightarrow> real \<Rightarrow> nat \<Rightarrow> nat \<Rightarrow> train_state \<Rightarrow>
   error + train_state" where
  "train_batch X_batch_size Y_batch_size learning_rate decay_rate ii jj st =
     (let num_classes = 10; beta1 = 9 / 10; beta2 = 999 / 1000; epsilon = 1 / 10 ^ 8 in
      bnd (list_get X_batch_size jj) (\<lambda>Xb.
      bnd (multi_layer_forward Xb (st_parameters st)) (\<lambda>(Z, caches).
      bnd (list_get Y_batch_size jj) (\<lambda>Yb.
      bnd (softmax_cross_entropy_loss Z num_classes Yb) (\<lambda>(A, cache_cross, cost).
      bnd (softmax_cross_entropy_loss_der Yb num_classes cache_cross) (\<lambda>dZ.
      bnd (multi_layer_backward dZ caches (st_parameters st)) (\<lambda>gradients.
      let t = st_t st + 1 in
      bnd (update_parameters_velocity (st_parameters st) gradients (int ii) (st_v st) (st_sv st) t
             beta1 beta2 epsilon learning_rate decay_rate) (\<lambda>(parameters, alpha, velocity, svelocity).
      Inr (st\<lparr>st_parameters := parameters, st_v := velocity, st_sv := svelocity, st_t := t,
               st_alpha := alpha, st_cost := Some cost\<rparr>)))))))))"

fun batch_loop ::
  "nat list \<Rightarrow> real ndarray list \<Rightarrow> int ndarray list \<Rightarrow> real \<Rightarrow> real \<Rightarrow> nat \<Rightarrow> train_state \<Rightarrow>
   error + train_state" where
  "batch_loop [] X_batch_size Y_batch_size learning_rate decay_rate ii st = Inr st"
| "batch_loop (jj # jjs) X_batch_size Y_batch_size learning_rate decay_rate ii st =
     bnd (train_batch X_batch_size Y_batch_size learning_rate decay_rate ii jj st) (\<lambda>st'.
     batch_loop jjs X_batch_size Y_batch_size learning_rate decay_rate ii st')"

text \<open>
  One forward pass with the loss of its output: what the loop does with a batch before
  it updates the parameters, and with the validation set after the batches.
\<close>

definition forward_loss :: "real ndarray \<Rightarrow> int ndarray \<Rightarrow> real ndarray dict \<Rightarrow> error + loss" where
  "forward_loss X Y parameters =
     bnd (multi_layer_forward X parameters) (\<lambda>(Z, caches).
     bnd (softmax_cross_entropy_loss Z 10 Y) (\<lambda>(A, cache_cross, cost).
     Inr cost))"

text \<open>
  The body of the loop over the epochs. The two \<open>print\<close> statements format both costs
  with \<open>%.05f\<close>, which raises \<open>TypeError\<close> for the empty list.
\<close>

definition train_epoch ::
  "real ndarray list \<Rightarrow> int ndarray list \<Rightarrow> real ndarray \<Rightarrow> int ndarray \<Rightarrow> real \<Rightarrow> real \<Rightarrow>
   nat \<Rightarrow> train_state \<Rightarrow> error + train_state" where
  "train_epoch X_batch_size Y_batch_size B0 validation_label learning_rate decay_rate ii st =
     (let num_classes = 10; batch_length = length X_batch_size in
      bnd (batch_loop [0..<batch_length] X_batch_size Y_batch_size learning_rate decay_rate ii st)
        (\<lambda>st.
      bnd (case st_cost st of None \<Rightarrow> Inl UnboundLocalError | Some c \<Rightarrow> Inr c) (\<lambda>cost.
      let st = st\<lparr>st_costs := st_costs st @ [cost]\<rparr> in
      bnd (multi_layer_forward B0 (st_parameters st)) (\<lambda>(VZ, vcaches).
      bnd (softmax_cross_entropy_loss VZ num_classes validation_label) (\<lambda>(B, vcache_cross, vcost).
      let st = st\<lparr>st_vcosts := st_vcosts st @ [vcost]\<rparr> in
      if ii mod 10 = 0 then
        (case (cost, vcost) of (Scalar c, Scalar vc) \<Rightarrow> Inr st | _ \<Rightarrow> Inl TypeError)
      else Inr st)))))"

fun epoch_loop ::
  "nat list \<Rightarrow> real ndarray list \<Rightarrow> int ndarray list \<Rightarrow> real ndarray \<Rightarrow> int ndarray \<Rightarrow>
   real \<Rightarrow> real \<Rightarrow> train_state \<Rightarrow> error + train_state" where
  "epoch_loop [] X_batch_size Y_batch_size B0 validation_label learning_rate decay_rate st = Inr st"
| "epoch_loop (ii # iis) X_batch_size Y_batch_size B0 validation_label learning_rate decay_rate st =
     bnd (train_epoch X_batch_size Y_batch_size B0 validation_label learning_rate decay_rate ii st)
       (\<lambda>st'.
     epoch_loop iis X_batch_size Y_batch_size B0 validation_label learning_rate decay_rate st')"

text \<open>
  What \<open>multi_layer_network\<close> does before its loops: the initial parameters and moment
  accumulators, and the partition of the training set into batches.
\<close>

definition network_setup ::
  "('g \<Rightarrow> real \<Rightarrow> nat \<Rightarrow> nat \<Rightarrow> (nat \<Rightarrow> nat \<Rightarrow> real) \<times> 'g) \<Rightarrow> 'g \<Rightarrow>
   real ndarray \<Rightarrow> int ndarray \<Rightarrow> nat list \<Rightarrow> real \<Rightarrow> int \<Rightarrow>
   error + (train_state \<times> real ndarray list \<times> int ndarray list)" where
  "network_setup normal seed0 X Y net_dims learning_rate batch_size =
     bnd (initialize_multilayer_weights normal seed0 net_dims) (\<lambda>parameters.
     bnd (initialize_velocity parameters) (\<lambda>(v, sv).
     bnd (np_split X batch_size) (\<lambda>X_batch_size.
     bnd (np_split Y batch_size) (\<lambda>Y_batch_size.
     Inr (\<lparr>st_parameters = parameters, st_v = v, st_sv = sv, st_t = 0,
           st_alpha = learning_rate, st_cost = None, st_costs = [], st_vcosts = []\<rparr>,
          X_batch_size, Y_batch_size)))))"

text \<open>\<open>multi_layer_network\<close>; \<open>num_iterations\<close> is the number of epochs.\<close>

definition multi_layer_network ::
  "('g \<Rightarrow> real \<Rightarrow> nat \<Rightarrow> nat \<Rightarrow> (nat \<Rightarrow> nat \<Rightarrow> real) \<times> 'g) \<Rightarrow> 'g \<Rightarrow>
   real ndarray \<Rightarrow> int ndarray \<Rightarrow> real ndarray \<Rightarrow> int ndarray \<Rightarrow> nat list \<Rightarrow> nat \<Rightarrow>
   real \<Rightarrow> real \<Rightarrow> int \<Rightarrow>
   error + (loss list \<times> real ndarray dict \<times> loss list)" where
  "multi_layer_network normal seed0 X Y validation_data validation_label net_dims
       num_iterations learning_rate decay_rate batch_size =
     bnd (network_setup normal seed0 X Y net_dims learning_rate batch_size)
       (\<lambda>(st0, X_batch_size, Y_batch_size).
     bnd (epoch_loop [0..<num_iterations] X_batch_size Y_batch_size validation_data
            validation_label learning_rate decay_rate st0) (\<lambda>st.
     Inr (st_costs st, st_parameters st, st_vcosts st)))"


section \<open>The update rule as the specification writes it\<close>

text \<open>
  The formulas of the specification for one array, entry by entry:
  \<open>velocity = \<beta>2 * velocity + (1 - \<beta>2) * gradient\<close>,
  \<open>sq_velocity = \<beta>2 * sq_velocity + (1 - \<beta>2) * gradient\<^sup>2\<close> and
  \<open>param = param - learning_rate * velocity_corr / sqrt(sq_velocity_corr + \<epsilon>)\<close> with
  \<open>velocity_corr = velocity / (1 - \<beta>1\<^sup>t)\<close> and
  \<open>sq_velocity_corr = sq_velocity / (1 - \<beta>2\<^sup>t)\<close>. \<open>pair_ready\<close> says that a
  parameter, its gradient and its two accumulators are present with one shape, and
  \<open>pair_updated\<close> that the three formulas relate the dictionaries before and after a step.
\<close>

definition same_shape :: "'a ndarray \<Rightarrow> 'b ndarray \<Rightarrow> bool" where
  "same_shape A B \<longleftrightarrow> nrows A = nrows B \<and> ncols A = ncols B"

definition velocity_rule :: "real \<Rightarrow> real ndarray \<Rightarrow> real ndarray \<Rightarrow> real ndarray \<Rightarrow> bool" where
  "velocity_rule beta2 velocity gradient velocity' \<longleftrightarrow>
     same_shape velocity' velocity \<and>
     (\<forall>r<nrows velocity. \<forall>c<ncols velocity.
        item velocity' r c = beta2 * item velocity r c + (1 - beta2) * item gradient r c)"

definition sq_velocity_rule :: "real \<Rightarrow> real ndarray \<Rightarrow> real ndarray \<Rightarrow> real ndarray \<Rightarrow> bool" where
  "sq_velocity_rule beta2 sq_velocity gradient sq_velocity' \<longleftrightarrow>
     same_shape sq_velocity' sq_velocity \<and>
     (\<forall>r<nrows sq_velocity. \<forall>c<ncols sq_velocity.
        item sq_velocity' r c =
          beta2 * item sq_velocity r c + (1 - beta2) * (item gradient r c) ^ 2)"

definition param_rule ::
  "real \<Rightarrow> real \<Rightarrow> real \<Rightarrow> real \<Rightarrow> nat \<Rightarrow>
   real ndarray \<Rightarrow> real ndarray \<Rightarrow> real ndarray \<Rightarrow> real ndarray \<Rightarrow> bool" where
  "param_rule learning_rate beta1 beta2 epsilon t param velocity' sq_velocity' param' \<longleftrightarrow>
     same_shape param' param \<and>
     (\<forall>r<nrows param. \<forall>c<ncols param.
        item param' r c =
          item param r c -
          learning_rate * (item velocity' r c / (1 - beta1 ^ t)) /
            sqrt (item sq_velocity' r c / (1 - beta2 ^ t) + epsilon))"

definition pair_ready ::
  "real ndarray dict \<Rightarrow> real ndarray dict \<Rightarrow> real ndarray dict \<Rightarrow> real ndarray dict \<Rightarrow>
   string \<Rightarrow> string \<Rightarrow> bool" where
  "pair_ready parameters gradients velocity svelocity k dk =
     (case (parameters k, gradients dk, velocity dk, svelocity dk) of
        (Some p, Some g, Some v, Some s) \<Rightarrow> same_shape g p \<and> same_shape v p \<and> same_shape s p
      | _ \<Rightarrow> False)"

definition pair_updated ::
  "real \<Rightarrow> real \<Rightarrow> real \<Rightarrow> real \<Rightarrow> nat \<Rightarrow>
   real ndarray dict \<Rightarrow> real ndarray dict \<Rightarrow> real ndarray dict \<Rightarrow> real ndarray dict \<Rightarrow>
   real ndarray dict \<Rightarrow> real ndarray dict \<Rightarrow> real ndarray dict \<Rightarrow> string \<Rightarrow> string \<Rightarrow> bool" where
  "pair_updated learning_rate beta1 beta2 epsilon t parameters gradients velocity svelocity
       parameters' velocity' svelocity' k dk =
     (case (parameters k, gradients dk, velocity dk, svelocity dk,
            parameters' k, velocity' dk, svelocity' dk) of
        (Some p, Some g, Some v, Some s, Some p', Some v', Some s') \<Rightarrow>
          velocity_rule beta2 v g v' \<and> sq_velocity_rule beta2 s g s' \<and>
          param_rule learning_rate beta1 beta2 epsilon t p v' s' p'
      | _ \<Rightarrow> False)"

definition zero_gradient :: "real ndarray dict \<Rightarrow> real ndarray dict \<Rightarrow> string \<Rightarrow> string \<Rightarrow> bool" where
  "zero_gradient parameters gradients k dk =
     (case (parameters k, gradients dk) of
        (Some p, Some g) \<Rightarrow> same_shape g p \<and> (\<forall>r<nrows g. \<forall>c<ncols g. item g r c = 0)
      | _ \<Rightarrow> False)"

definition nonneg_entries :: "real ndarray dict \<Rightarrow> bool" where
  "nonneg_entries d \<longleftrightarrow> (\<forall>k s. d k = Some s \<longrightarrow> (\<forall>r<nrows s. \<forall>c<ncols s. 0 \<le> item s r c))"

definition zero_entries :: "real ndarray dict \<Rightarrow> bool" where
  "zero_entries d \<longleftrightarrow> (\<forall>k v. d k = Some v \<longrightarrow> (\<forall>r<nrows v. \<forall>c<ncols v. item v r c = 0))"


section \<open>Basic facts\<close>

lemma bnd_Inr [simp]: "bnd (Inr x) f = f x"
  by (simp add: bnd_def)

lemma bnd_Inl [simp]: "bnd (Inl e) f = Inl e"
  by (simp add: bnd_def)

lemma put_each_ok:
  "\<forall>p\<in>set ps. - int (ncols A) \<le> snd p \<and> snd p < int (ncols A) \<Longrightarrow>
   \<exists>B. put_each A ps v = Inr B \<and> nrows B = nrows A \<and> ncols B = ncols A \<and>
       (\<forall>i j. item B i j =
          (if \<exists>k. (i, k) \<in> set ps \<and> j = wrap_index (ncols A) k then v else item A i j))"
proof (induction ps arbitrary: A)
  case Nil
  then show ?case by simp
next
  case (Cons p ps)
  obtain i k where p: "p = (i, k)" by (cases p)
  let ?j = "wrap_index (ncols A) k"
  let ?A = "A\<lparr>item := (item A)(i := (item A i)(?j := v))\<rparr>"
  from Cons.prems p have rng: "- int (ncols A) \<le> k \<and> k < int (ncols A)" by simp
  from Cons.prems have "\<forall>p\<in>set ps. - int (ncols ?A) \<le> snd p \<and> snd p < int (ncols ?A)"
    by simp
  from Cons.IH [OF this] obtain B where B: "put_each ?A ps v = Inr B"
    "nrows B = nrows ?A" "ncols B = ncols ?A"
    "\<forall>i' j. item B i' j =
          (if \<exists>k. (i', k) \<in> set ps \<and> j = wrap_index (ncols ?A) k then v else item ?A i' j)"
    by blast
  have "put_each A (p # ps) v = Inr B"
    using rng B(1) by (simp add: p norm_index_def wrap_index_def)
  moreover have "\<forall>i' j. item B i' j =
          (if \<exists>k'. (i', k') \<in> set (p # ps) \<and> j = wrap_index (ncols A) k' then v else item A i' j)"
    using B(4) by (auto simp: p)
  ultimately show ?case using B(2,3) by simp
qed

lemma put_each_bad:
  "\<exists>p\<in>set ps. \<not> (- int (ncols A) \<le> snd p \<and> snd p < int (ncols A)) \<Longrightarrow>
   put_each A ps v = Inl IndexError"
proof (induction ps arbitrary: A)
  case Nil
  then show ?case by simp
next
  case (Cons p ps)
  obtain i k where p: "p = (i, k)" by (cases p)
  show ?case
  proof (cases "- int (ncols A) \<le> k \<and> k < int (ncols A)")
    case True
    let ?A = "A\<lparr>item := (item A)(i := (item A i)(wrap_index (ncols A) k := v))\<rparr>"
    from True Cons.prems p have "\<exists>p\<in>set ps. \<not> (- int (ncols ?A) \<le> snd p \<and> snd p < int (ncols ?A))"
      by auto
    from Cons.IH [OF this] have "put_each ?A ps v = Inl IndexError" .
    then show ?thesis using True
      by (simp add: p norm_index_def wrap_index_def)
  next
    case False
    then show ?thesis by (auto simp: p norm_index_def)
  qed
qed

lemma in_set_zip_upt: "(i, k) \<in> set (zip [0..<length ys] ys) \<longleftrightarrow> i < length ys \<and> k = ys ! i"
  by (force simp: in_set_zip)

lemma getitem_Some [simp]: "d k = Some v \<Longrightarrow> getitem d k = Inr v"
  by (simp add: getitem_def)

lemma getitem_None [simp]: "d k = None \<Longrightarrow> getitem d k = Inl KeyError"
  by (simp add: getitem_def)

lemma index_array_int64:
  "Yf \<noteq> [] \<Longrightarrow> \<forall>v\<in>set Yf. - (2 ^ 63) \<le> v \<and> v < 2 ^ 63 \<Longrightarrow> index_array Yf = Inr Yf"
  by (simp add: index_array_def)

lemma index_array_Inl: "index_array Yf = Inl e \<Longrightarrow> e = IndexError"
  by (auto simp: index_array_def split: if_splits)

lemma index_array_Inr:
  assumes "index_array Yf = Inr idx"
  shows "length idx = length Yf \<and> (\<forall>i<length Yf. Yf ! i < 2 ^ 63 \<longrightarrow> idx ! i = Yf ! i)"
proof (cases "\<forall>v\<in>set Yf. - (2 ^ 63) \<le> v \<and> v < 2 ^ 63")
  case True
  with assms show ?thesis by (auto simp: index_array_def split: if_splits)
next
  case False
  with assms have idx: "idx = map (\<lambda>v. if 2 ^ 63 \<le> v then v - 2 ^ 64 else v) Yf"
    by (auto simp: index_array_def split: if_splits)
  then show ?thesis by simp
qed

lemma one_hot_entries:
  assumes "rectangular Y" "0 \<le> nc" "nc \<le> 2 ^ 63" "concat Y \<noteq> []"
    "\<forall>v\<in>set (concat Y). - nc \<le> v \<and> v < nc"
  shows "\<exists>M. one_hot Y nc = Inr M \<and> nrows M = length (concat Y) \<and> ncols M = nat nc \<and>
           (\<forall>i<length (concat Y). \<forall>j. item M i j =
              (if j = wrap_index (nat nc) (concat Y ! i) then 1 else 0))"
proof -
  define ys where "ys = concat Y"
  have assms': "ys \<noteq> []" "\<forall>v\<in>set ys. - nc \<le> v \<and> v < nc"
    using assms by (simp_all add: ys_def)
  have "\<forall>v\<in>set ys. - (2 ^ 63) \<le> v \<and> v < 2 ^ 63"
    using assms'(2) assms(3) by force
  with assms'(1) have idx: "index_array ys = Inr ys" by (rule index_array_int64)
  let ?Z = "\<lparr>nrows = length ys, ncols = nat nc, item = (\<lambda>i j. 0::real)\<rparr>"
  have "\<forall>p\<in>set (zip [0..<length ys] ys). - int (ncols ?Z) \<le> snd p \<and> snd p < int (ncols ?Z)"
    using assms' assms(2) by (auto simp: in_set_zip_upt)
  from put_each_ok [OF this, of 1] obtain B where B: "put_each ?Z (zip [0..<length ys] ys) 1 = Inr B"
    "nrows B = nrows ?Z" "ncols B = ncols ?Z"
    "\<forall>i j. item B i j =
          (if \<exists>k. (i, k) \<in> set (zip [0..<length ys] ys) \<and> j = wrap_index (ncols ?Z) k then 1 else item ?Z i j)"
    by blast
  have "one_hot Y nc = Inr B"
    using assms(1,2) idx B(1) by (simp add: one_hot_def np_zeros_def Let_def ys_def [symmetric])
  moreover have "\<forall>i<length ys. \<forall>j. item B i j = (if j = wrap_index (nat nc) (ys ! i) then 1 else 0)"
    using B(4) by (simp add: in_set_zip_upt)
  ultimately show ?thesis using B(2,3) by (simp add: ys_def)
qed

lemma one_hot_bad:
  assumes "rectangular Y" "0 \<le> nc"
    and "\<exists>v\<in>set (concat Y). v < - nc \<or> (nc \<le> v \<and> v < 2 ^ 63)"
  shows "one_hot Y nc = Inl IndexError"
proof -
  define ys where "ys = concat Y"
  let ?Z = "\<lparr>nrows = length ys, ncols = nat nc, item = (\<lambda>i j. 0::real)\<rparr>"
  from assms obtain v where v: "v \<in> set ys" "v < - nc \<or> (nc \<le> v \<and> v < 2 ^ 63)"
    unfolding ys_def by blast
  then obtain i where i: "i < length ys" "ys ! i = v" by (auto simp: in_set_conv_nth)
  have oh: "one_hot Y nc = bnd (index_array ys) (\<lambda>indices. put_each ?Z (zip [0..<length ys] indices) 1)"
    using assms(1,2) by (simp add: one_hot_def np_zeros_def Let_def ys_def [symmetric])
  show ?thesis
  proof (cases "index_array ys")
    case (Inl e)
    then show ?thesis using oh index_array_Inl [OF Inl] by simp
  next
    case (Inr idx)
    from index_array_Inr [OF Inr] have len: "length idx = length ys"
      and same: "\<forall>i<length ys. ys ! i < 2 ^ 63 \<longrightarrow> idx ! i = ys ! i" by simp_all
    from v(2) assms(2) have "v < 2 ^ 63" by auto
    with same i have "idx ! i = v" by simp
    with i len have "i < length idx \<and> v = idx ! i" by simp
    then have "(i, v) \<in> set (zip [0..<length idx] idx)" by (simp only: in_set_zip_upt)
    then have "\<exists>p\<in>set (zip [0..<length ys] idx).
        \<not> (- int (ncols ?Z) \<le> snd p \<and> snd p < int (ncols ?Z))"
      using v(2) assms(2) len by force
    from put_each_bad [OF this, of 1] show ?thesis using oh Inr by simp
  qed
qed


section \<open>One-hot encoding: shape, entries and index range\<close>

lemma one_hot_valid_labels:
  assumes "rectangular Y" and "num_classes < 2 ^ 63" and "concat Y \<noteq> []"
    and "\<forall>v\<in>set (concat Y). 0 \<le> v \<and> v < num_classes"
  shows "\<exists>M. one_hot Y num_classes = Inr M \<and>
           nrows M = length (concat Y) \<and> ncols M = nat num_classes \<and>
           (\<forall>i<length (concat Y). \<forall>j<nat num_classes.
              item M i j = (if int j = concat Y ! i then 1 else 0))"
proof -
  define ys where "ys = concat Y"
  from assms have ne: "ys \<noteq> []" and rng: "\<forall>v\<in>set ys. 0 \<le> v \<and> v < num_classes"
    by (simp_all add: ys_def)
  from assms(2) have le: "num_classes \<le> 2 ^ 63" by simp
  from ne obtain v where "v \<in> set ys" by (cases ys) auto
  with rng have nc: "0 \<le> num_classes" by force
  from rng have "\<forall>v\<in>set ys. - num_classes \<le> v \<and> v < num_classes" by force
  with one_hot_entries [of Y num_classes] nc ne le assms(1)
  obtain M where M: "one_hot Y num_classes = Inr M" "nrows M = length ys"
    "ncols M = nat num_classes"
    "\<forall>i<length ys. \<forall>j. item M i j = (if j = wrap_index (nat num_classes) (ys ! i) then 1 else 0)"
    unfolding ys_def by blast
  have ent: "\<forall>i<length ys. \<forall>j<nat num_classes. item M i j = (if int j = ys ! i then 1 else 0)"
  proof (intro allI impI)
    fix i j assume i: "i < length ys" and j: "j < nat num_classes"
    from i rng have "0 \<le> ys ! i" by simp
    then have "wrap_index (nat num_classes) (ys ! i) = nat (ys ! i)"
      by (simp add: wrap_index_def)
    with M(4) i \<open>0 \<le> ys ! i\<close> show "item M i j = (if int j = ys ! i then 1 else 0)"
      by auto
  qed
  show ?thesis
    using M(1,2,3) ent unfolding ys_def [symmetric]
    by (intro exI [of _ M]) simp
qed

text \<open>
  Claim C4, as amended. For every non-empty vector of labels that all satisfy
  \<open>0 \<le> v < num_classes\<close> (given as a nested list with rows of one length, for a number
  of classes that an array dimension can hold), \<open>one_hot\<close> returns a matrix with one row
  per sample and \<open>num_classes\<close> columns, of shape \<open>(batch_m, num_classes)\<close>: in the row of
  a sample, column \<open>v\<close> holds 1 and every other entry holds 0. The transpose of it, which
  both callers take, has the shape \<open>(num_classes, batch_m)\<close> with the 1 of a sample's
  column in row \<open>v\<close>.
\<close>

theorem one_hot_rows:
  assumes "rectangular Y" and "num_classes < 2 ^ 63" and "concat Y \<noteq> []"
    and "\<forall>v\<in>set (concat Y). 0 \<le> v \<and> v < num_classes"
  shows "\<exists>M. one_hot Y num_classes = Inr M \<and>
           nrows M = length (concat Y) \<and> ncols M = nat num_classes \<and>
           (\<forall>i<length (concat Y). \<forall>j<nat num_classes.
              item M i j = (if int j = concat Y ! i then 1 else 0)) \<and>
           nrows (np_transpose M) = nat num_classes \<and>
           ncols (np_transpose M) = length (concat Y) \<and>
           (\<forall>i<length (concat Y). \<forall>j<nat num_classes.
              item (np_transpose M) j i = (if int j = concat Y ! i then 1 else 0))"
proof -
  from one_hot_valid_labels [OF assms] obtain M where
    "one_hot Y num_classes = Inr M" "nrows M = length (concat Y)" "ncols M = nat num_classes"
    "\<forall>i<length (concat Y). \<forall>j<nat num_classes.
        item M i j = (if int j = concat Y ! i then 1 else 0)"
    by blast
  then show ?thesis
    by (intro exI [of _ M]) (simp add: np_transpose_def)
qed

theorem one_hot_rows_witness:
  "map_sum id tolist (one_hot [[1, 0, 1]] 2) = Inr [[0, 1], [1, 0], [0, 1]]"
proof -
  have "rectangular [[1, 0, 1::int]]" by (simp add: rectangular_def)
  moreover have "(2::int) < 2 ^ 63" by simp
  moreover have "concat [[1, 0, 1::int]] \<noteq> []" by simp
  moreover have "\<forall>v\<in>set (concat [[1, 0, 1::int]]). 0 \<le> v \<and> v < 2" by simp
  ultimately obtain M where M: "one_hot [[1, 0, 1]] 2 = Inr M"
    "nrows M = length (concat [[1, 0, 1::int]])" "ncols M = nat 2"
    "\<forall>i<length (concat [[1, 0, 1::int]]). \<forall>j<nat 2.
        item M i j = (if int j = concat [[1, 0, 1::int]] ! i then 1 else 0)"
    using one_hot_rows [of "[[1, 0, 1]]" 2] by blast
  from M(2,3,4) have "tolist M = [[0, 1], [1, 0], [0, 1]]"
    by (simp add: tolist_def upt_rec less_Suc_eq numeral_3_eq_3 numeral_2_eq_2)
  with M(1) show ?thesis by simp
qed

text \<open>
  The claim as stated gives the result of \<open>one_hot\<close> itself the shape
  \<open>(num_classes, batch_m)\<close>. For three labels and two classes the result has three rows
  and two columns.
\<close>

theorem one_hot_shape_counterexample:
  "map_sum id (\<lambda>M. (nrows M, ncols M, tolist M)) (one_hot [[1, 0, 1]] 2)
     = Inr (3, 2, [[0, 1], [1, 0], [0, 1]])"
  by (simp add: one_hot_def rectangular_def index_array_def np_zeros_def norm_index_def
      tolist_def Let_def upt_rec)

text \<open>
  Claim C10, as amended. For a non-empty label vector (a nested list with rows of one
  length, and a number of classes that an array dimension can hold), \<open>one_hot\<close> does not
  fail when every label lies in \<open>[-num_classes, num_classes)\<close>: a negative label \<open>v\<close> then
  puts the 1 of its sample at index \<open>num_classes + v\<close>, a well-formed one-hot row for the
  wrong class. So \<open>one_hot\<close> fails only when some label is \<open>\<ge> num_classes\<close> or
  \<open>< - num_classes\<close>.
\<close>

theorem one_hot_index_range:
  assumes "rectangular Y" and "0 \<le> num_classes" and "num_classes < 2 ^ 63"
    and "concat Y \<noteq> []"
  shows "((\<forall>v\<in>set (concat Y). - num_classes \<le> v \<and> v < num_classes) \<longrightarrow>
            (\<exists>M. one_hot Y num_classes = Inr M \<and>
               nrows M = length (concat Y) \<and> ncols M = nat num_classes \<and>
               (\<forall>i<length (concat Y). \<forall>j<nat num_classes.
                  item M i j =
                    (if int j = (if concat Y ! i < 0 then num_classes + concat Y ! i
                                 else concat Y ! i)
                     then 1 else 0)))) \<and>
         (\<forall>e. one_hot Y num_classes = Inl e \<longrightarrow>
            (\<exists>v\<in>set (concat Y). v < - num_classes \<or> num_classes \<le> v))"
proof -
  define ys where "ys = concat Y"
  have ok: "\<exists>M. one_hot Y num_classes = Inr M \<and>
               nrows M = length ys \<and> ncols M = nat num_classes \<and>
               (\<forall>i<length ys. \<forall>j<nat num_classes.
                  item M i j =
                    (if int j = (if ys ! i < 0 then num_classes + ys ! i else ys ! i)
                     then 1 else 0))"
    if rng: "\<forall>v\<in>set ys. - num_classes \<le> v \<and> v < num_classes"
  proof -
    from assms(3) have le: "num_classes \<le> 2 ^ 63" by simp
    from rng one_hot_entries [of Y num_classes] assms(1,2,4) le
    obtain M where M: "one_hot Y num_classes = Inr M" "nrows M = length ys"
      "ncols M = nat num_classes"
      "\<forall>i<length ys. \<forall>j. item M i j =
          (if j = wrap_index (nat num_classes) (ys ! i) then 1 else 0)"
      unfolding ys_def by blast
    have "\<forall>i<length ys. \<forall>j<nat num_classes. item M i j =
            (if int j = (if ys ! i < 0 then num_classes + ys ! i else ys ! i) then 1 else 0)"
    proof (intro allI impI)
      fix i j assume i: "i < length ys" and j: "j < nat num_classes"
      from i rng have "- num_classes \<le> ys ! i" by simp
      with M(4) i assms(2) show "item M i j =
            (if int j = (if ys ! i < 0 then num_classes + ys ! i else ys ! i) then 1 else 0)"
        by (auto simp: wrap_index_def)
    qed
    with M(1,2,3) show ?thesis by blast
  qed
  have only: "\<exists>v\<in>set ys. v < - num_classes \<or> num_classes \<le> v"
    if e: "one_hot Y num_classes = Inl e" for e
  proof (rule ccontr)
    assume "\<not> (\<exists>v\<in>set ys. v < - num_classes \<or> num_classes \<le> v)"
    then have "\<forall>v\<in>set ys. - num_classes \<le> v \<and> v < num_classes" by force
    from ok [OF this] e show False by auto
  qed
  from ok only show ?thesis unfolding ys_def by blast
qed

theorem one_hot_index_range_witness:
  "map_sum id tolist (one_hot [[-1, 0, -2]] 2) = Inr [[0, 1], [1, 0], [1, 0]]"
proof -
  have a: "(0::int) \<le> 2" "(2::int) < 2 ^ 63" by simp_all
  have r: "rectangular [[-1, 0, -2::int]]" by (simp add: rectangular_def)
  have b: "concat [[-1, 0, -2::int]] \<noteq> []" by simp
  have c: "\<forall>v\<in>set (concat [[-1, 0, -2::int]]). - 2 \<le> v \<and> v < 2" by simp
  from one_hot_index_range [OF r a b] c
  obtain M where M: "one_hot [[-1, 0, -2]] 2 = Inr M"
    "nrows M = length (concat [[-1, 0, -2::int]])" "ncols M = nat 2"
    "\<forall>i<length (concat [[-1, 0, -2::int]]). \<forall>j<nat 2.
        item M i j = (if int j = (if concat [[-1, 0, -2::int]] ! i < 0
              then 2 + concat [[-1, 0, -2::int]] ! i else concat [[-1, 0, -2::int]] ! i)
           then 1 else 0)"
    by blast
  from M(2,3,4) have "tolist M = [[0, 1], [1, 0], [1, 0]]"
    by (simp add: tolist_def upt_rec less_Suc_eq numeral_3_eq_3 numeral_2_eq_2)
  with M(1) show ?thesis by simp
qed

text \<open>
  The claim as stated lets \<open>one_hot\<close> fail only for a label \<open>\<ge> num_classes\<close>. The label
  \<open>-3\<close> with two classes is below that bound and raises \<open>IndexError\<close> all the same.
\<close>

theorem one_hot_lower_bound_counterexample:
  "one_hot [[-3]] 2 = Inl IndexError"
  by (simp add: one_hot_def rectangular_def index_array_def np_zeros_def norm_index_def Let_def)

lemma huge_label_wraps:
  "map_sum id tolist (one_hot [[18446744073709551615]] 2) = Inr [[0, 1]]"
  by (simp add: one_hot_def rectangular_def index_array_def np_zeros_def norm_index_def
      tolist_def Let_def upt_rec)


section \<open>The derivative of relu\<close>

text \<open>
  Claim C7. For an upstream gradient \<open>dA\<close> and a cache that holds the pre-activation
  \<open>Z\<close> of the same shape, \<open>relu_der\<close> returns \<open>dZ\<close> of that shape, equal to \<open>dA\<close>
  entry by entry except that \<open>dZ[i,j] = 0\<close> where \<open>Z[i,j] < 0\<close>; where \<open>Z[i,j]\<close> is
  exactly zero the entry of \<open>dA\<close> is passed through.
\<close>

theorem relu_der_entries:
  assumes "cache ''Z'' = Some Z" and "nrows Z = nrows dA" and "ncols Z = ncols dA"
  shows "\<exists>dZ. relu_der dA cache = Inr dZ \<and> nrows dZ = nrows dA \<and> ncols dZ = ncols dA \<and>
           (\<forall>i<nrows dA. \<forall>j<ncols dA.
              (item Z i j < 0 \<longrightarrow> item dZ i j = 0) \<and>
              (item Z i j = 0 \<longrightarrow> item dZ i j = item dA i j) \<and>
              (0 < item Z i j \<longrightarrow> item dZ i j = item dA i j))"
  using assms by (simp add: relu_der_def Let_def)

theorem relu_der_entries_witness:
  "map_sum id tolist (relu_der (np_array [[5, 6, 7]]) [''Z'' \<mapsto> np_array [[-1, 0, 2]]])
     = Inr [[0, 6, 7]]"
proof -
  let ?dA = "np_array [[5, 6, 7::real]]"
  let ?Z = "np_array [[-1, 0, 2::real]]"
  have a: "[''Z'' \<mapsto> ?Z] ''Z'' = Some ?Z" by simp
  have b: "nrows ?Z = nrows ?dA" "ncols ?Z = ncols ?dA" by (simp_all add: np_array_def)
  from relu_der_entries [of "[''Z'' \<mapsto> ?Z]" ?Z ?dA, OF a b] obtain dZ where dZ: "relu_der ?dA [''Z'' \<mapsto> ?Z] = Inr dZ"
    "nrows dZ = nrows ?dA" "ncols dZ = ncols ?dA"
    "\<forall>i<nrows ?dA. \<forall>j<ncols ?dA.
              (item ?Z i j < 0 \<longrightarrow> item dZ i j = 0) \<and>
              (item ?Z i j = 0 \<longrightarrow> item dZ i j = item ?dA i j) \<and>
              (0 < item ?Z i j \<longrightarrow> item dZ i j = item ?dA i j)"
    by blast
  from dZ(2,3,4) have "tolist dZ = [[0, 6, 7]]"
    by (simp add: tolist_def np_array_def upt_rec less_Suc_eq numeral_3_eq_3)
  with dZ(1) show ?thesis by simp
qed

section \<open>Elementwise operations on arrays of one shape\<close>

lemma bc_dim_same [simp]: "bc_dim a a = Inr a"
  by (simp add: bc_dim_def)

lemma bc_dim_one [simp]: "bc_dim a 1 = Inr a" "bc_dim a (Suc 0) = Inr a"
  by (simp_all add: bc_dim_def)

lemma bc_ix_less [simp]: "i < n \<Longrightarrow> bc_ix n i = i"
  by (auto simp: bc_ix_def)

lemma bc_ix_one [simp]: "bc_ix (Suc 0) i = 0"
  by (simp add: bc_ix_def)

lemma np_binop_same_shape:
  assumes "nrows A = nrows B" and "ncols A = ncols B"
  shows "\<exists>C. np_binop f A B = Inr C \<and> nrows C = nrows A \<and> ncols C = ncols A \<and>
           (\<forall>i<nrows A. \<forall>j<ncols A. item C i j = f (item A i j) (item B i j))"
  using assms by (simp add: np_binop_def)

section \<open>The backward pass of the linear layer\<close>

text \<open>
  Claim C3. For \<open>dZ\<close> of shape \<open>(n, m)\<close>, a cached input \<open>A_prev\<close> of shape \<open>(p, m)\<close>
  and \<open>W\<close> of shape \<open>(n, p)\<close>, with a batch of \<open>m > 0\<close> samples, \<open>linear_backward\<close>
  returns \<open>dA_prev = W\<^sup>T \<cdot> dZ\<close>, \<open>dW = (dZ \<cdot> A_prev\<^sup>T) / m\<close> and
  \<open>db = rowwise_sum(dZ) / m\<close>, where \<open>m\<close> is the number of columns of \<open>A_prev\<close>.
\<close>

theorem linear_backward_entries:
  assumes "cache ''A'' = Some A_prev"
    and "nrows dZ = n" and "ncols dZ = m"
    and "nrows A_prev = p" and "ncols A_prev = m"
    and "nrows W = n" and "ncols W = p"
    and "0 < m"
  shows "\<exists>dA_prev dW db. linear_backward dZ cache W b = Inr (dA_prev, dW, db) \<and>
           nrows dA_prev = p \<and> ncols dA_prev = m \<and>
           (\<forall>k<p. \<forall>j<m. item dA_prev k j = (\<Sum>i<n. item W i k * item dZ i j)) \<and>
           nrows dW = n \<and> ncols dW = p \<and>
           (\<forall>i<n. \<forall>k<p. item dW i k = (\<Sum>j<m. item dZ i j * item A_prev k j) / real m) \<and>
           nrows db = n \<and> ncols db = 1 \<and>
           (\<forall>i<n. item db i 0 = (\<Sum>j<m. item dZ i j) / real m)"
  using assms
  by (simp add: linear_backward_def np_dot_def np_transpose_def np_map_def np_sum_axis1_def Let_def)

theorem linear_backward_entries_witness:
  "map_sum id (\<lambda>(dA_prev, dW, db). (tolist dA_prev, tolist dW, tolist db))
     (linear_backward (np_array [[1, 2], [3, 4]]) [''A'' \<mapsto> np_array [[1, 0]]]
        (np_array [[2], [3]]) (np_array [[0], [0]]))
   = Inr ([[11, 16]], [[1 / 2], [3 / 2]], [[3 / 2], [7 / 2]])"
proof -
  let ?dZ = "np_array [[1, 2], [3, 4::real]]"
  let ?A = "np_array [[1, 0::real]]"
  let ?W = "np_array [[2], [3::real]]"
  let ?b = "np_array [[0], [0::real]]"
  have h: "[''A'' \<mapsto> ?A] ''A'' = Some ?A" "nrows ?dZ = 2" "ncols ?dZ = 2"
    "nrows ?A = 1" "ncols ?A = 2" "nrows ?W = 2" "ncols ?W = 1" "0 < (2::nat)"
    by (simp_all add: np_array_def)
  from linear_backward_entries [of "[''A'' \<mapsto> ?A]" ?A ?dZ 2 2 1 ?W ?b, OF h]
  obtain dA_prev dW db where r:
    "linear_backward ?dZ [''A'' \<mapsto> ?A] ?W ?b = Inr (dA_prev, dW, db)"
    "nrows dA_prev = 1" "ncols dA_prev = 2"
    "\<forall>k<1. \<forall>j<2. item dA_prev k j = (\<Sum>i<2. item ?W i k * item ?dZ i j)"
    "nrows dW = 2" "ncols dW = 1"
    "\<forall>i<2. \<forall>k<1. item dW i k = (\<Sum>j<2. item ?dZ i j * item ?A k j) / real 2"
    "nrows db = 2" "ncols db = 1"
    "\<forall>i<2. item db i 0 = (\<Sum>j<2. item ?dZ i j) / real 2"
    by blast
  have "tolist dA_prev = [[11, 16]]"
    using r(2,3,4) by (simp add: tolist_def np_array_def upt_rec numeral_2_eq_2 lessThan_Suc)
  moreover have "tolist dW = [[1 / 2], [3 / 2]]"
    using r(5,6,7) by (simp add: tolist_def np_array_def upt_rec numeral_2_eq_2 lessThan_Suc)
  moreover have "tolist db = [[3 / 2], [7 / 2]]"
    using r(8,9,10) by (simp add: tolist_def np_array_def upt_rec numeral_2_eq_2 lessThan_Suc)
  ultimately show ?thesis using r(1) by simp
qed


section \<open>The softmax head\<close>


lemma float_max_gt_one: "(1::real) < 2 ^ 1024 - 2 ^ 970"
proof -
  have "(2::real) ^ 1024 = 2 ^ 970 * 2 ^ 54" by (simp add: power_add [symmetric])
  moreover have "(1::real) \<le> 2 ^ 970" by simp
  moreover have "(2::real) \<le> 2 ^ 54 - 1" by simp
  ultimately have "2 * 1 \<le> (2::real) ^ 970 * (2 ^ 54 - 1)"
    by (intro mult_mono) auto
  then show ?thesis using \<open>(2::real) ^ 1024 = 2 ^ 970 * 2 ^ 54\<close> by (simp add: algebra_simps)
qed

lemma np_exp_nonpos:
  "x \<le> 0 \<Longrightarrow> np_exp x = Inr (if exp x \<le> 1 / 2 ^ 1075 then 0 else exp x)"
proof -
  assume "x \<le> 0"
  then have "exp x \<le> 1" by simp
  with float_max_gt_one have "\<not> 2 ^ 1024 - 2 ^ 970 \<le> exp x" by linarith
  then show ?thesis by (simp add: np_exp_def)
qed

lemma exp_4_ge: "(2::real) ^ 5 \<le> exp 4"
proof -
  have "(1 + 4 / of_nat 16) ^ 16 \<le> exp (4::real)"
    by (rule exp_ge_one_plus_x_over_n_power_n) auto
  moreover have "(2::real) ^ 5 \<le> (1 + 4 / of_nat 16) ^ 16" by (simp add: power_divide)
  ultimately show ?thesis by linarith
qed

lemma exp_1000_ge: "(2::real) ^ 1075 \<le> exp 1000"
proof -
  have "(2::real) ^ 1075 \<le> 2 ^ 1250" by (intro power_increasing) auto
  also have "\<dots> = ((2::real) ^ 5) ^ 250" by (simp add: power_mult [symmetric])
  also have "\<dots> \<le> exp 4 ^ 250" using exp_4_ge by (intro power_mono) auto
  also have "\<dots> = exp 1000" by (simp add: exp_of_nat_mult [symmetric])
  finally show ?thesis .
qed

lemma exp_600_less: "exp 600 < (2::real) ^ 1075"
proof -
  have "exp 600 = exp (1::real) ^ 600" by (simp add: exp_of_nat_mult [symmetric])
  also have "\<dots> \<le> 3 ^ 600" using exp_le by (intro power_mono) auto
  also have "\<dots> = ((3::real) ^ 5) ^ 120" by (simp add: power_mult [symmetric])
  also have "\<dots> \<le> ((2::real) ^ 8) ^ 120" by (intro power_mono) auto
  also have "\<dots> = (2::real) ^ 960" by (simp add: power_mult [symmetric])
  also have "\<dots> < 2 ^ 1075" by (intro power_strict_increasing) auto
  finally show ?thesis .
qed

lemma no_underflow:
  assumes "- 600 \<le> x"
  shows "1 / 2 ^ 1075 < exp (x::real)"
proof -
  have "1 / 2 ^ 1075 < 1 / exp (600::real)"
    using exp_600_less by (simp add: frac_less2)
  also have "\<dots> = exp (- 600)" by (simp add: exp_minus inverse_eq_divide)
  also have "\<dots> \<le> exp x" using assms by simp
  finally show ?thesis .
qed


lemma np_exp_zero: "np_exp 0 = Inr 1"
  by (simp add: np_exp_nonpos)

lemma np_exp_regular: "- 600 \<le> x \<Longrightarrow> x \<le> 0 \<Longrightarrow> np_exp x = Inr (exp x)"
  using no_underflow [of x] by (simp add: np_exp_nonpos)

lemma np_max_ge:
  assumes "np_max Z = Inr m" "i < nrows Z" "j < ncols Z"
  shows "item Z i j \<le> m"
proof -
  let ?S = "(\<lambda>(i, j). item Z i j) ` ({..<nrows Z} \<times> {..<ncols Z})"
  from assms(1) have m: "m = Max ?S" by (auto simp: np_max_def split: if_splits)
  have "finite ?S" by simp
  moreover have "item Z i j \<in> ?S" using assms(2,3) by force
  ultimately show ?thesis unfolding m by (rule Max_ge)
qed

lemma np_max_nonempty: "np_max Z = Inr m \<Longrightarrow> 0 < nrows Z \<and> 0 < ncols Z"
  by (auto simp: np_max_def split: if_splits)

lemma softmax_exp:
  assumes "np_max Z = Inr m"
  shows "\<exists>E. np_exp_array (np_map (\<lambda>z. z - m) Z) = Inr E \<and>
           nrows E = nrows Z \<and> ncols E = ncols Z \<and>
           (\<forall>i<nrows Z. \<forall>j<ncols Z. item E i j =
              (if exp (item Z i j - m) \<le> 1 / 2 ^ 1075 then 0 else exp (item Z i j - m)))"
proof -
  have e: "np_exp (item Z i j - m) =
      Inr (if exp (item Z i j - m) \<le> 1 / 2 ^ 1075 then 0 else exp (item Z i j - m))"
    if "i < nrows Z" "j < ncols Z" for i j
    using np_max_ge [OF assms that] by (intro np_exp_nonpos) simp
  then have "\<not> (\<exists>i<nrows Z. \<exists>j<ncols Z. np_exp (item Z i j - m) = Inl NotANumber)"
    by auto
  then have "np_exp_array (np_map (\<lambda>z. z - m) Z) =
      Inr (np_map (\<lambda>x. case np_exp x of Inl e \<Rightarrow> 0 | Inr y \<Rightarrow> y) (np_map (\<lambda>z. z - m) Z))"
    by (simp add: np_exp_array_def np_map_def)
  moreover have "\<forall>i<nrows Z. \<forall>j<ncols Z.
      item (np_map (\<lambda>x. case np_exp x of Inl e \<Rightarrow> 0 | Inr y \<Rightarrow> y) (np_map (\<lambda>z. z - m) Z)) i j =
        (if exp (item Z i j - m) \<le> 1 / 2 ^ 1075 then 0 else exp (item Z i j - m))"
    using e by (simp add: np_map_def)
  ultimately show ?thesis by (simp add: np_map_def)
qed

lemma np_divide_by_column_sums:
  assumes "0 < nrows E" and "\<forall>j<ncols E. (\<Sum>k<nrows E. item E k j) \<noteq> 0"
  shows "\<exists>A. np_divide E (np_sum_axis0 E) = Inr A \<and> nrows A = nrows E \<and> ncols A = ncols E \<and>
           (\<forall>i<nrows E. \<forall>j<ncols E. item A i j = item E i j / (\<Sum>k<nrows E. item E k j))"
  using assms by (simp add: np_divide_def np_binop_def np_sum_axis0_def)



lemma softmax_activations:
  assumes mx: "np_max Z = Inr m"
    and cols: "\<forall>j<ncols Z. \<exists>i<nrows Z. 1 / 2 ^ 1075 < exp (item Z i j - m)"
  shows "\<exists>E A. np_exp_array (np_map (\<lambda>z. z - m) Z) = Inr E \<and>
           np_divide E (np_sum_axis0 E) = Inr A \<and>
           nrows A = nrows Z \<and> ncols A = ncols Z \<and>
           (\<forall>i<nrows Z. \<forall>j<ncols Z.
              item E i j = (if exp (item Z i j - m) \<le> 1 / 2 ^ 1075 then 0
                            else exp (item Z i j - m)) \<and>
              item A i j = item E i j / (\<Sum>k<nrows Z. item E k j) \<and>
              0 \<le> item E i j \<and> item E i j \<le> (\<Sum>k<nrows Z. item E k j) \<and>
              0 < (\<Sum>k<nrows Z. item E k j))"
proof -
  from softmax_exp [OF mx] obtain E where E: "np_exp_array (np_map (\<lambda>z. z - m) Z) = Inr E"
    "nrows E = nrows Z" "ncols E = ncols Z"
    "\<forall>i<nrows Z. \<forall>j<ncols Z. item E i j =
        (if exp (item Z i j - m) \<le> 1 / 2 ^ 1075 then 0 else exp (item Z i j - m))"
    by blast
  have nn: "0 \<le> item E i j" if "i < nrows Z" "j < ncols Z" for i j
    using E(4) that by simp
  have pos: "0 < (\<Sum>k<nrows Z. item E k j)" if j: "j < ncols Z" for j
  proof -
    from cols j obtain i where i: "i < nrows Z" "1 / 2 ^ 1075 < exp (item Z i j - m)" by blast
    with E(4) j have "0 < item E i j" by simp
    moreover have "item E i j \<le> (\<Sum>k<nrows Z. item E k j)"
      by (rule member_le_sum) (use i nn j in auto)
    ultimately show ?thesis by linarith
  qed
  have le: "item E i j \<le> (\<Sum>k<nrows Z. item E k j)" if "i < nrows Z" "j < ncols Z" for i j
    by (rule member_le_sum) (use that nn in auto)
  have n: "0 < nrows E" using np_max_nonempty [OF mx] E(2) by simp
  have "\<forall>j<ncols E. (\<Sum>k<nrows E. item E k j) \<noteq> 0"
    using pos E(2,3) by force
  from np_divide_by_column_sums [OF n this] obtain A where A:
    "np_divide E (np_sum_axis0 E) = Inr A" "nrows A = nrows E" "ncols A = ncols E"
    "\<forall>i<nrows E. \<forall>j<ncols E. item A i j = item E i j / (\<Sum>k<nrows E. item E k j)"
    by blast
  show ?thesis
    using E A nn pos le by (intro exI [of _ E] exI [of _ A]) simp
qed

text \<open>
  Without the shift \<open>exp\<close> overflows on scores that the shifted form handles: the scores
  of the example below are all at least 1000.
\<close>

lemma np_exp_overflow: "np_exp 1000 = Inl NotANumber"
proof -
  have "(2::real) ^ 1024 - 2 ^ 970 \<le> 2 ^ 1024" by simp
  also have "\<dots> \<le> 2 ^ 1075" by (intro power_increasing) auto
  also have "\<dots> \<le> exp 1000" by (rule exp_1000_ge)
  finally show ?thesis by (simp add: np_exp_def)
qed

lemma unshifted_exp_overflows:
  "np_exp_array (np_array [[1000, 1001], [1000, 1003]]) = Inl NotANumber"
proof -
  let ?Z = "np_array [[1000, 1001], [1000, 1003::real]]"
  have "0 < nrows ?Z" "0 < ncols ?Z" "np_exp (item ?Z 0 0) = Inl NotANumber"
    by (simp_all add: np_array_def np_exp_overflow)
  then have "\<exists>i<nrows ?Z. \<exists>j<ncols ?Z. np_exp (item ?Z i j) = Inl NotANumber" by blast
  then show ?thesis by (simp only: np_exp_array_def if_True)
qed





section \<open>The cross-entropy loss\<close>

lemma one_hot_column_sum:
  assumes "0 \<le> v" and "v < int n"
  shows "(\<Sum>i<n. if int i = v then (1::real) else 0) = 1"
proof -
  have "(\<Sum>i<n. if int i = v then (1::real) else 0) = (\<Sum>i<n. if nat v = i then 1 else 0)"
    by (rule sum.cong) (use assms in auto)
  also have "\<dots> = 1" using assms by simp
  finally show ?thesis .
qed

lemma tolist_one_row: "nrows Y = 1 \<Longrightarrow> tolist Y = [map (item Y 0) [0..<ncols Y]]"
  by (simp add: tolist_def)

lemma exp_100_large: "(10::real) ^ 9 < exp 100"
proof -
  have "(2::real) \<le> exp 1" using exp_ge_add_one_self [of "1::real"] by simp
  then have "(2::real) ^ 100 \<le> exp 1 ^ 100" by (intro power_mono) auto
  also have "\<dots> = exp 100" by (simp add: exp_of_nat_mult [symmetric])
  finally have "(2::real) ^ 100 \<le> exp 100" .
  moreover have "(10::real) ^ 9 < 2 ^ 100" by simp
  ultimately show ?thesis by linarith
qed

lemma near_one: "(1::real) < 1 / (exp (- 100) + 1) + 1 / 10 ^ 9"
proof -
  have e: "exp (- 100) < 1 / (10::real) ^ 9"
    using exp_100_large by (simp add: exp_minus field_simps)
  have "1 - exp (- 100) \<le> 1 / (exp (- 100::real) + 1)"
  proof -
    have "(1 - exp (- 100)) * (exp (- 100::real) + 1) \<le> 1"
      by (simp add: algebra_simps)
    then show ?thesis by (simp add: pos_le_divide_eq add_pos_pos)
  qed
  with e show ?thesis by linarith
qed

lemma astype_int_id: "- (2 ^ 63) \<le> v \<Longrightarrow> v < 2 ^ 63 \<Longrightarrow> (v + 2 ^ 63) mod 2 ^ 64 - 2 ^ 63 = (v::int)"
  by simp

text \<open>
  Claim C5, as amended. Let \<open>Z\<close> have one row per class, and let every column of \<open>Z\<close>
  have an entry that lies less than about 745 below \<open>np.max(Z)\<close>, so that no column of
  \<open>exp(Z - np.max(Z))\<close> underflows to zero as a whole. For a label row \<open>Y\<close> of shape
  \<open>(1, m)\<close>, \<open>m > 0\<close>, with values in \<open>[0, num_classes)\<close>, the softmax head returns a
  scalar loss \<open>-sum(one_hot * log(A + \<epsilon>)) / m\<close>, \<open>\<epsilon> = 1e-9\<close>, that is at least
  \<open>-log(1 + \<epsilon>)\<close>. It can be negative: a predicted probability above \<open>1 - \<epsilon>\<close> makes
  \<open>log(A + \<epsilon>)\<close> positive.
\<close>

theorem cross_entropy_lower_bound:
  assumes "np_max Z = Inr mx"
    and "\<forall>j<ncols Z. \<exists>i<nrows Z. 1 / 2 ^ 1075 < exp (item Z i j - mx)"
    and "nrows Z = nat num_classes" and "num_classes < 2 ^ 63"
    and "nrows Y = 1" and "ncols Y = ncols Z"
    and "\<forall>j<ncols Z. 0 \<le> item Y 0 j \<and> item Y 0 j < num_classes"
  shows "\<exists>A cache l. softmax_cross_entropy_loss Z num_classes Y = Inr (A, cache, Scalar l) \<and>
           - ln (1 + 1 / 10 ^ 9) \<le> l"
proof -
  define n where "n = nrows Z"
  define m where "m = ncols Z"
  define eps :: real where "eps = 1 / 10 ^ 9"
  define ys where "ys = map (item Y 0) [0..<m]"
  have m: "0 < m" using np_max_nonempty [OF assms(1)] by (simp add: m_def)
  have lab: "\<And>j. j < m \<Longrightarrow> 0 \<le> item Y 0 j \<and> item Y 0 j < num_classes"
    using assms(7) by (simp add: m_def)
  from lab [OF m] have nc: "0 < num_classes" by linarith
  then have n: "0 < n" "int n = num_classes" using assms(3) by (simp_all add: n_def)
  have eps: "0 < eps" by (simp add: eps_def)
  from softmax_activations [OF assms(1,2)] obtain E A where A:
    "np_exp_array (np_map (\<lambda>z. z - mx) Z) = Inr E"
    "np_divide E (np_sum_axis0 E) = Inr A"
    "nrows A = n" "ncols A = m"
    "\<forall>i<n. \<forall>j<m. item A i j = item E i j / (\<Sum>k<n. item E k j) \<and>
        0 \<le> item E i j \<and> item E i j \<le> (\<Sum>k<n. item E k j) \<and> 0 < (\<Sum>k<n. item E k j)"
    unfolding n_def m_def by blast
  have Abound: "0 \<le> item A i j \<and> item A i j \<le> 1" if "i < n" "j < m" for i j
  proof -
    from A(5) that have a: "item A i j = item E i j / (\<Sum>k<n. item E k j)"
      and b: "0 \<le> item E i j" and c: "item E i j \<le> (\<Sum>k<n. item E k j)"
      and d: "0 < (\<Sum>k<n. item E k j)" by blast+
    from b c d show ?thesis unfolding a by (simp add: divide_le_eq)
  qed
  have same: "(item Y 0 j + 2 ^ 63) mod 2 ^ 64 - 2 ^ 63 = item Y 0 j" if "j < m" for j
    using lab [OF that] assms(4) by (intro astype_int_id) auto
  have tl: "tolist (astype_int Y) = [ys]"
    using assms(5,6) same by (simp add: tolist_def astype_int_def np_map_def ys_def m_def)
  have cc: "concat (tolist (astype_int Y)) = ys" by (simp add: tl)
  have ysl: "length ys = m" by (simp add: ys_def)
  have ysn: "\<And>j. j < m \<Longrightarrow> ys ! j = item Y 0 j" by (simp add: ys_def)
  have "rectangular (tolist (astype_int Y))" by (simp add: tl rectangular_def)
  moreover have "concat (tolist (astype_int Y)) \<noteq> []" using m ysl cc by auto
  moreover have "\<forall>v\<in>set (concat (tolist (astype_int Y))). 0 \<le> v \<and> v < num_classes"
    using lab by (auto simp: cc ys_def)
  ultimately obtain OH where OH: "one_hot (tolist (astype_int Y)) num_classes = Inr OH"
    "nrows OH = m" "ncols OH = n"
    "\<forall>i<m. \<forall>j<n. item OH i j = (if int j = ys ! i then 1 else 0)"
    using one_hot_valid_labels [of "tolist (astype_int Y)" num_classes] n(2) assms(4)
    unfolding cc ysl by (metis nat_int)
  define Ysm where "Ysm = np_transpose OH"
  define LA where "LA = np_map (\<lambda>a. ln (a + 1 / 10 ^ 9)) A"
  have shp: "nrows Ysm = nrows LA" "ncols Ysm = ncols LA" "nrows Ysm = n" "ncols Ysm = m"
    using OH(2,3) A(3,4) by (simp_all add: Ysm_def LA_def np_transpose_def np_map_def)
  from np_binop_same_shape [OF shp(1,2), of "(*)"] obtain P where P:
    "np_binop (*) Ysm LA = Inr P" "nrows P = n" "ncols P = m"
    "\<forall>i<n. \<forall>j<m. item P i j = item Ysm i j * item LA i j"
    using shp(3,4) by auto
  have Yent: "item Ysm i j = (if int i = ys ! j then 1 else 0)" if "i < n" "j < m" for i j
    using OH(4) that by (simp add: Ysm_def np_transpose_def)
  have LAent: "item LA i j = ln (item A i j + eps)" for i j
    by (simp add: LA_def np_map_def eps_def)
  have Y0: "nrows Y \<noteq> 0" using assms(5) by simp
  have res: "softmax_cross_entropy_loss Z num_classes Y =
               Inr (A, [''A'' \<mapsto> A], Scalar (- np_sum P / real m))"
    using assms(1) A(1,2,4) OH(1) P(1) Y0
    by (simp add: softmax_cross_entropy_loss_def Let_def Ysm_def LA_def)
  have term_le: "item P i j \<le> item Ysm i j * ln (1 + eps)" if "i < n" "j < m" for i j
  proof -
    from Abound [OF that] eps have "ln (item A i j + eps) \<le> ln (1 + eps)"
      by (intro ln_mono) auto
    moreover have "0 \<le> item Ysm i j" using Yent [OF that] by simp
    ultimately have "item Ysm i j * ln (item A i j + eps) \<le> item Ysm i j * ln (1 + eps)"
      by (intro mult_left_mono)
    then show ?thesis using P(4) that by (simp add: LAent)
  qed
  have "np_sum P = (\<Sum>i<n. \<Sum>j<m. item P i j)" by (simp add: np_sum_def P(2,3))
  also have "\<dots> \<le> (\<Sum>i<n. \<Sum>j<m. item Ysm i j * ln (1 + eps))"
    by (intro sum_mono) (use term_le in auto)
  also have "\<dots> = (\<Sum>j<m. \<Sum>i<n. item Ysm i j * ln (1 + eps))"
    by (rule sum.swap)
  also have "\<dots> = (\<Sum>j<m. ln (1 + eps))"
  proof (rule sum.cong)
    fix j assume "j \<in> {..<m}"
    then have j: "j < m" by simp
    have "(\<Sum>i<n. item Ysm i j * ln (1 + eps)) = (\<Sum>i<n. item Ysm i j) * ln (1 + eps)"
      by (simp add: sum_distrib_right)
    also have "(\<Sum>i<n. item Ysm i j) = (\<Sum>i<n. if int i = ys ! j then 1 else 0)"
      by (rule sum.cong) (use Yent j in auto)
    also have "\<dots> = 1"
      using lab [OF j] ysn [OF j] n(2) by (intro one_hot_column_sum) auto
    finally show "(\<Sum>i<n. item Ysm i j * ln (1 + eps)) = ln (1 + eps)" by simp
  qed simp
  also have "\<dots> = real m * ln (1 + eps)" by simp
  finally have "np_sum P \<le> real m * ln (1 + eps)" .
  then have "np_sum P / real m \<le> ln (1 + eps)"
    using m by (simp add: divide_le_eq mult.commute)
  then have "- ln (1 + 1 / 10 ^ 9) \<le> - np_sum P / real m"
    by (simp add: eps_def)
  with res show ?thesis by blast
qed

theorem cross_entropy_lower_bound_witness:
  "\<exists>A cache l. softmax_cross_entropy_loss (np_array [[0], [0]]) 2 (np_array [[1]]) =
       Inr (A, cache, Scalar l) \<and> - ln (1 + 1 / 10 ^ 9) \<le> l"
proof -
  let ?Z = "np_array [[0], [0::real]]"
  let ?Y = "np_array [[1::int]]"
  have mx: "np_max ?Z = Inr 0"
    by (simp add: np_max_def np_array_def numeral_2_eq_2 lessThan_Suc)
  have cols: "\<forall>j<ncols ?Z. \<exists>i<nrows ?Z. 1 / 2 ^ 1075 < exp (item ?Z i j - 0)"
  proof (intro allI impI)
    fix j assume "j < ncols ?Z"
    then have "j = 0" by (simp add: np_array_def)
    then have "- 600 \<le> item ?Z 0 j - 0" by (simp add: np_array_def)
    then have "1 / 2 ^ 1075 < exp (item ?Z 0 j - 0)" by (rule no_underflow)
    moreover have "0 < nrows ?Z" by (simp add: np_array_def)
    ultimately show "\<exists>i<nrows ?Z. 1 / 2 ^ 1075 < exp (item ?Z i j - 0)" by blast
  qed
  have "nrows ?Z = nat 2" "(2::int) < 2 ^ 63" "nrows ?Y = 1" "ncols ?Y = ncols ?Z"
    "\<forall>j<ncols ?Z. 0 \<le> item ?Y 0 j \<and> item ?Y 0 j < 2"
    by (simp_all add: np_array_def)
  from cross_entropy_lower_bound [OF mx cols this] show ?thesis .
qed

text \<open>
  The claim as stated makes the loss non-negative. For two classes, one sample with the
  scores 100 and 0 and the label 0, the predicted probability of the label is
  \<open>1 / (1 + exp(-100))\<close>, and the loss is negative.
\<close>

theorem cross_entropy_negative_counterexample:
  "\<exists>l. map_sum id (\<lambda>(A, cache, cost). cost)
          (softmax_cross_entropy_loss (np_array [[100], [0]]) 2 (np_array [[0]])) =
        Inr (Scalar l) \<and> l < 0"
proof -
  let ?Z = "np_array [[100], [0::real]]"
  let ?Y = "np_array [[0::int]]"
  have mx: "np_max ?Z = Inr 100"
    by (simp add: np_max_def np_array_def numeral_2_eq_2 lessThan_Suc)
  have shape: "nrows ?Z = 2" "ncols ?Z = 1" by (simp_all add: np_array_def)
  have cols: "\<forall>j<ncols ?Z. \<exists>i<nrows ?Z. 1 / 2 ^ 1075 < exp (item ?Z i j - 100)"
  proof (intro allI impI)
    fix j assume "j < ncols ?Z"
    then have "j = 0" by (simp add: np_array_def)
    then have "- 600 \<le> item ?Z 0 j - 100" by (simp add: np_array_def)
    then have "1 / 2 ^ 1075 < exp (item ?Z 0 j - 100)" by (rule no_underflow)
    moreover have "0 < nrows ?Z" by (simp add: np_array_def)
    ultimately show "\<exists>i<nrows ?Z. 1 / 2 ^ 1075 < exp (item ?Z i j - 100)" by blast
  qed
  from softmax_activations [OF mx cols] obtain E A where A:
    "np_exp_array (np_map (\<lambda>z. z - 100) ?Z) = Inr E"
    "np_divide E (np_sum_axis0 E) = Inr A"
    "nrows A = nrows ?Z" "ncols A = ncols ?Z"
    "\<forall>i<nrows ?Z. \<forall>j<ncols ?Z.
        item E i j = (if exp (item ?Z i j - 100) \<le> 1 / 2 ^ 1075 then 0
                      else exp (item ?Z i j - 100)) \<and>
        item A i j = item E i j / (\<Sum>k<nrows ?Z. item E k j)"
    by blast
  have nu: "\<not> exp (- 100) \<le> 1 / (2::real) ^ 1075" "\<not> exp 0 \<le> 1 / (2::real) ^ 1075"
    using no_underflow [of "- 100"] no_underflow [of 0] by simp_all
  have E: "item E 0 0 = 1" "item E 1 0 = exp (- 100)"
    using A(5) nu by (simp_all add: np_array_def)
  have A00: "item A 0 0 = 1 / (exp (- 100) + 1)"
    using A(5) E by (simp add: np_array_def numeral_2_eq_2 lessThan_Suc)
  have oh: "one_hot (tolist (astype_int ?Y)) 2 =
        Inr \<lparr>nrows = 1, ncols = 2, item = ((\<lambda>i j. 0)(0 := (\<lambda>j. 0)(0 := 1)))\<rparr>"
    by (simp add: one_hot_def rectangular_def index_array_def tolist_def astype_int_def
        np_map_def np_array_def np_zeros_def norm_index_def Let_def)
  have "softmax_cross_entropy_loss ?Z 2 ?Y =
      Inr (A, [''A'' \<mapsto> A], Scalar (- ln (item A 0 0 + 1 / 10 ^ 9)))"
    using mx A(1,2,3,4) oh shape
    by (simp add: softmax_cross_entropy_loss_def Let_def np_binop_def np_map_def
        np_transpose_def np_sum_def np_array_def bc_ix_def bc_dim_def
        numeral_2_eq_2 lessThan_Suc)
  then have "map_sum id (\<lambda>(A, cache, cost). cost) (softmax_cross_entropy_loss ?Z 2 ?Y) =
        Inr (Scalar (- ln (1 / (exp (- 100) + 1) + 1 / 10 ^ 9)))"
    by (simp add: A00)
  moreover have "- ln (1 / (exp (- 100) + 1) + 1 / 10 ^ 9) < (0::real)"
    using near_one by simp
  ultimately show ?thesis by blast
qed


section \<open>Dictionary keys\<close>

lemma digit_cases:
  "d < 10 \<Longrightarrow> d = 0 \<or> d = 1 \<or> d = 2 \<or> d = 3 \<or> d = 4 \<or> d = 5 \<or> d = 6 \<or> d = 7 \<or> d = 8 \<or> d = (9::nat)"
  by arith

lemma digit_inj: "a < 10 \<Longrightarrow> b < 10 \<Longrightarrow> digit a = digit b \<Longrightarrow> a = b"
  using digit_cases [of a] digit_cases [of b] by (auto simp: digit_def)

lemma str_nonempty: "str n \<noteq> []"
  by (subst str.simps) simp

lemma str_inj: "str n = str m \<Longrightarrow> n = m"
proof (induction n arbitrary: m rule: str.induct)
  case (1 n)
  show ?case
  proof (cases "n < 10")
    case True
    show ?thesis
    proof (cases "m < 10")
      case m: True
      from "1.prems" True m have "digit n = digit m" by (simp add: str.simps)
      with True m show ?thesis by (rule digit_inj)
    next
      case False
      with "1.prems" True have "[digit n] = str (m div 10) @ [digit (m mod 10)]"
        by (simp add: str.simps [of n] str.simps [of m])
      then show ?thesis using str_nonempty [of "m div 10"] by simp
    qed
  next
    case False
    show ?thesis
    proof (cases "m < 10")
      case True
      with "1.prems" False have "str (n div 10) @ [digit (n mod 10)] = [digit m]"
        by (simp add: str.simps [of n] str.simps [of m])
      then show ?thesis using str_nonempty [of "n div 10"] by simp
    next
      case m: False
      with "1.prems" False
      have "str (n div 10) @ [digit (n mod 10)] = str (m div 10) @ [digit (m mod 10)]"
        by (simp add: str.simps [of n] str.simps [of m])
      then have a: "str (n div 10) = str (m div 10)" and b: "digit (n mod 10) = digit (m mod 10)"
        by simp_all
      from "1.IH" [OF False a] have "n div 10 = m div 10" .
      moreover from b have "n mod 10 = m mod 10" by (intro digit_inj) auto
      ultimately show ?thesis by (metis div_mult_mod_eq)
    qed
  qed
qed

lemma str_eq_iff [simp]: "str n = str m \<longleftrightarrow> n = m"
  using str_inj by auto

lemma str_1: "str 1 = ''1''" "str (Suc 0) = ''1''"
  by (simp_all add: str.simps digit_def)

section \<open>The update rule\<close>

lemma np_map_shape [simp]: "nrows (np_map f A) = nrows A" "ncols (np_map f A) = ncols A"
  "item (np_map f A) i j = f (item A i j)"
  by (simp_all add: np_map_def)

lemma moment_binop:
  assumes "same_shape g v"
  shows "\<exists>v'. np_binop (+) (np_map (\<lambda>x. beta * x) v) (np_map (\<lambda>x. (1 - beta) * f x) g) = Inr v' \<and>
           same_shape v' v \<and>
           (\<forall>r<nrows v. \<forall>c<ncols v. item v' r c = beta * item v r c + (1 - beta) * f (item g r c))"
proof -
  have "nrows (np_map (\<lambda>x. beta * x) v) = nrows (np_map (\<lambda>x. (1 - beta) * f x) g)"
    "ncols (np_map (\<lambda>x. beta * x) v) = ncols (np_map (\<lambda>x. (1 - beta) * f x) g)"
    using assms by (simp_all add: same_shape_def)
  from np_binop_same_shape [OF this, of "(+)"] show ?thesis
    by (auto simp: same_shape_def)
qed

lemma param_binop:
  assumes "same_shape v' p" and "same_shape s' p"
  shows "\<exists>step p'.
           np_binop (/) (np_map (\<lambda>x. lr * x) (np_map (\<lambda>x. x / d1) v'))
                        (np_map (\<lambda>x. sqrt (x + eps)) (np_map (\<lambda>x. x / d2) s')) = Inr step \<and>
           np_binop (-) p step = Inr p' \<and> same_shape p' p \<and>
           (\<forall>r<nrows p. \<forall>c<ncols p.
              item p' r c = item p r c - lr * (item v' r c / d1) / sqrt (item s' r c / d2 + eps))"
proof -
  let ?a = "np_map (\<lambda>x. lr * x) (np_map (\<lambda>x. x / d1) v')"
  let ?b = "np_map (\<lambda>x. sqrt (x + eps)) (np_map (\<lambda>x. x / d2) s')"
  have "nrows ?a = nrows ?b" "ncols ?a = ncols ?b"
    using assms by (simp_all add: same_shape_def)
  from np_binop_same_shape [OF this, of "(/)"] obtain step where step:
    "np_binop (/) ?a ?b = Inr step" "nrows step = nrows p" "ncols step = ncols p"
    "\<forall>r<nrows p. \<forall>c<ncols p. item step r c = lr * (item v' r c / d1) / sqrt (item s' r c / d2 + eps)"
    using assms by (auto simp: same_shape_def)
  from step(2,3) have "nrows p = nrows step" "ncols p = ncols step" by simp_all
  from np_binop_same_shape [OF this, of "(-)"] obtain p' where
    "np_binop (-) p step = Inr p'" "nrows p' = nrows p" "ncols p' = ncols p"
    "\<forall>r<nrows p. \<forall>c<ncols p. item p' r c = item p r c - item step r c"
    by auto
  with step show ?thesis by (auto simp: same_shape_def)
qed

lemma update_loop_step:
  assumes W: "parameters (''W'' @ str (i + 1)) = Some pW" "gradients (''dW'' @ str (i + 1)) = Some gW"
      "velocity (''dW'' @ str (i + 1)) = Some vW" "svelocity (''dW'' @ str (i + 1)) = Some sW"
      "same_shape gW pW" "same_shape vW pW" "same_shape sW pW"
    and b: "parameters (''b'' @ str (i + 1)) = Some pb" "gradients (''db'' @ str (i + 1)) = Some gb"
      "velocity (''db'' @ str (i + 1)) = Some vb" "svelocity (''db'' @ str (i + 1)) = Some sb"
      "same_shape gb pb" "same_shape vb pb" "same_shape sb pb"
  shows "\<exists>pW' vW' sW' pb' vb' sb'.
           update_loop (i # rest) gradients t beta1 beta2 epsilon learning_rate
               (parameters, velocity, svelocity) =
             update_loop rest gradients t beta1 beta2 epsilon learning_rate
               (parameters(''W'' @ str (i + 1) \<mapsto> pW', ''b'' @ str (i + 1) \<mapsto> pb'),
                velocity(''dW'' @ str (i + 1) \<mapsto> vW', ''db'' @ str (i + 1) \<mapsto> vb'),
                svelocity(''dW'' @ str (i + 1) \<mapsto> sW', ''db'' @ str (i + 1) \<mapsto> sb')) \<and>
           velocity_rule beta2 vW gW vW' \<and> sq_velocity_rule beta2 sW gW sW' \<and>
           param_rule learning_rate beta1 beta2 epsilon t pW vW' sW' pW' \<and>
           velocity_rule beta2 vb gb vb' \<and> sq_velocity_rule beta2 sb gb sb' \<and>
           param_rule learning_rate beta1 beta2 epsilon t pb vb' sb' pb'"
proof -
  have gv: "same_shape gW vW" "same_shape gW sW" "same_shape gb vb" "same_shape gb sb"
    using W(5-7) b(5-7) by (simp_all add: same_shape_def)
  from moment_binop [OF gv(1), of beta2 "\<lambda>x. x"] obtain vW' where vW':
    "np_binop (+) (np_map (\<lambda>x. beta2 * x) vW) (np_map (\<lambda>x. (1 - beta2) * x) gW) = Inr vW'"
    "same_shape vW' vW"
    "\<forall>r<nrows vW. \<forall>c<ncols vW. item vW' r c = beta2 * item vW r c + (1 - beta2) * item gW r c"
    by blast
  from moment_binop [OF gv(3), of beta2 "\<lambda>x. x"] obtain vb' where vb':
    "np_binop (+) (np_map (\<lambda>x. beta2 * x) vb) (np_map (\<lambda>x. (1 - beta2) * x) gb) = Inr vb'"
    "same_shape vb' vb"
    "\<forall>r<nrows vb. \<forall>c<ncols vb. item vb' r c = beta2 * item vb r c + (1 - beta2) * item gb r c"
    by blast
  from moment_binop [OF gv(2), of beta2 "\<lambda>x. x ^ 2"] obtain sW' where sW':
    "np_binop (+) (np_map (\<lambda>x. beta2 * x) sW) (np_map (\<lambda>x. (1 - beta2) * x ^ 2) gW) = Inr sW'"
    "same_shape sW' sW"
    "\<forall>r<nrows sW. \<forall>c<ncols sW. item sW' r c = beta2 * item sW r c + (1 - beta2) * (item gW r c) ^ 2"
    by blast
  from moment_binop [OF gv(4), of beta2 "\<lambda>x. x ^ 2"] obtain sb' where sb':
    "np_binop (+) (np_map (\<lambda>x. beta2 * x) sb) (np_map (\<lambda>x. (1 - beta2) * x ^ 2) gb) = Inr sb'"
    "same_shape sb' sb"
    "\<forall>r<nrows sb. \<forall>c<ncols sb. item sb' r c = beta2 * item sb r c + (1 - beta2) * (item gb r c) ^ 2"
    by blast
  have shW: "same_shape vW' pW" "same_shape sW' pW"
    using vW'(2) sW'(2) W(6,7) by (simp_all add: same_shape_def)
  have shb: "same_shape vb' pb" "same_shape sb' pb"
    using vb'(2) sb'(2) b(6,7) by (simp_all add: same_shape_def)
  from param_binop [OF shW, of learning_rate "1 - beta1 ^ t" epsilon "1 - beta2 ^ t"]
  obtain stepW pW' where pW':
    "np_binop (/) (np_map (\<lambda>x. learning_rate * x) (np_map (\<lambda>x. x / (1 - beta1 ^ t)) vW'))
        (np_map (\<lambda>x. sqrt (x + epsilon)) (np_map (\<lambda>x. x / (1 - beta2 ^ t)) sW')) = Inr stepW"
    "np_binop (-) pW stepW = Inr pW'" "same_shape pW' pW"
    "\<forall>r<nrows pW. \<forall>c<ncols pW. item pW' r c = item pW r c -
        learning_rate * (item vW' r c / (1 - beta1 ^ t)) / sqrt (item sW' r c / (1 - beta2 ^ t) + epsilon)"
    by blast
  from param_binop [OF shb, of learning_rate "1 - beta1 ^ t" epsilon "1 - beta2 ^ t"]
  obtain stepb pb' where pb':
    "np_binop (/) (np_map (\<lambda>x. learning_rate * x) (np_map (\<lambda>x. x / (1 - beta1 ^ t)) vb'))
        (np_map (\<lambda>x. sqrt (x + epsilon)) (np_map (\<lambda>x. x / (1 - beta2 ^ t)) sb')) = Inr stepb"
    "np_binop (-) pb stepb = Inr pb'" "same_shape pb' pb"
    "\<forall>r<nrows pb. \<forall>c<ncols pb. item pb' r c = item pb r c -
        learning_rate * (item vb' r c / (1 - beta1 ^ t)) / sqrt (item sb' r c / (1 - beta2 ^ t) + epsilon)"
    by blast
  have "update_loop (i # rest) gradients t beta1 beta2 epsilon learning_rate
               (parameters, velocity, svelocity) =
             update_loop rest gradients t beta1 beta2 epsilon learning_rate
               (parameters(''W'' @ str (i + 1) \<mapsto> pW', ''b'' @ str (i + 1) \<mapsto> pb'),
                velocity(''dW'' @ str (i + 1) \<mapsto> vW', ''db'' @ str (i + 1) \<mapsto> vb'),
                svelocity(''dW'' @ str (i + 1) \<mapsto> sW', ''db'' @ str (i + 1) \<mapsto> sb'))"
    using W(1-4) b(1-4) vW'(1) vb'(1) sW'(1) sb'(1) pW'(1,2) pb'(1,2)
    by (simp add: Let_def)
  moreover have "velocity_rule beta2 vW gW vW'" "velocity_rule beta2 vb gb vb'"
    using vW'(2,3) vb'(2,3) by (simp_all add: velocity_rule_def)
  moreover have "sq_velocity_rule beta2 sW gW sW'" "sq_velocity_rule beta2 sb gb sb'"
    using sW'(2,3) sb'(2,3) by (simp_all add: sq_velocity_rule_def)
  moreover have "param_rule learning_rate beta1 beta2 epsilon t pW vW' sW' pW'"
    "param_rule learning_rate beta1 beta2 epsilon t pb vb' sb' pb'"
    using pW'(3,4) pb'(3,4) by (simp_all add: param_rule_def)
  ultimately show ?thesis by blast
qed

lemma pair_readyD:
  "pair_ready P G V S k dk \<Longrightarrow>
   \<exists>p g v s. P k = Some p \<and> G dk = Some g \<and> V dk = Some v \<and> S dk = Some s \<and>
     same_shape g p \<and> same_shape v p \<and> same_shape s p"
  by (auto simp: pair_ready_def split: option.splits)

lemma pair_ready_cong:
  "P1 k = P k \<Longrightarrow> V1 dk = V dk \<Longrightarrow> S1 dk = S dk \<Longrightarrow>
   pair_ready P1 G V1 S1 k dk = pair_ready P G V S k dk"
  by (simp add: pair_ready_def)

lemma pair_updated_cong:
  "P1 k = P k \<Longrightarrow> V1 dk = V dk \<Longrightarrow> S1 dk = S dk \<Longrightarrow>
   pair_updated lr b1 b2 eps t P1 G V1 S1 P' V' S' k dk =
   pair_updated lr b1 b2 eps t P G V S P' V' S' k dk"
  by (simp add: pair_updated_def)

lemma pair_updatedI:
  "P k = Some p \<Longrightarrow> G dk = Some g \<Longrightarrow> V dk = Some v \<Longrightarrow> S dk = Some s \<Longrightarrow>
   P' k = Some p' \<Longrightarrow> V' dk = Some v' \<Longrightarrow> S' dk = Some s' \<Longrightarrow>
   velocity_rule b2 v g v' \<Longrightarrow> sq_velocity_rule b2 s g s' \<Longrightarrow>
   param_rule lr b1 b2 eps t p v' s' p' \<Longrightarrow>
   pair_updated lr b1 b2 eps t P G V S P' V' S' k dk"
  by (simp add: pair_updated_def)

lemma update_loop_result:
  assumes "distinct ls"
    and "\<forall>i\<in>set ls.
           pair_ready P G V S (''W'' @ str (i + 1)) (''dW'' @ str (i + 1)) \<and>
           pair_ready P G V S (''b'' @ str (i + 1)) (''db'' @ str (i + 1))"
  shows "\<exists>P' V' S'. update_loop ls G t b1 b2 eps lr (P, V, S) = Inr (P', V', S') \<and>
           (\<forall>i\<in>set ls.
              pair_updated lr b1 b2 eps t P G V S P' V' S' (''W'' @ str (i + 1)) (''dW'' @ str (i + 1)) \<and>
              pair_updated lr b1 b2 eps t P G V S P' V' S' (''b'' @ str (i + 1)) (''db'' @ str (i + 1))) \<and>
           (\<forall>k. (\<forall>i\<in>set ls. k \<noteq> ''W'' @ str (i + 1) \<and> k \<noteq> ''b'' @ str (i + 1)) \<longrightarrow> P' k = P k) \<and>
           (\<forall>k. (\<forall>i\<in>set ls. k \<noteq> ''dW'' @ str (i + 1) \<and> k \<noteq> ''db'' @ str (i + 1)) \<longrightarrow>
                V' k = V k \<and> S' k = S k)"
  using assms
proof (induction ls arbitrary: P V S)
  case Nil
  then show ?case by simp
next
  case (Cons i rest)
  let ?W = "''W'' @ str (i + 1)" and ?b = "''b'' @ str (i + 1)"
  let ?dW = "''dW'' @ str (i + 1)" and ?db = "''db'' @ str (i + 1)"
  from Cons.prems have fresh: "i \<notin> set rest" and dist: "distinct rest" by simp_all
  from Cons.prems have rW: "pair_ready P G V S ?W ?dW" and rb: "pair_ready P G V S ?b ?db"
    by simp_all
  from pair_readyD [OF rW] obtain pW gW vW sW where
    W: "P ?W = Some pW" "G ?dW = Some gW" "V ?dW = Some vW" "S ?dW = Some sW"
      "same_shape gW pW" "same_shape vW pW" "same_shape sW pW"
    by blast
  from pair_readyD [OF rb] obtain pb gb vb sb where
    b: "P ?b = Some pb" "G ?db = Some gb" "V ?db = Some vb" "S ?db = Some sb"
      "same_shape gb pb" "same_shape vb pb" "same_shape sb pb"
    by blast
  from update_loop_step [OF W b, of rest t b1 b2 eps lr]
  obtain pW' vW' sW' pb' vb' sb' where step:
    "update_loop (i # rest) G t b1 b2 eps lr (P, V, S) =
       update_loop rest G t b1 b2 eps lr
         (P(?W \<mapsto> pW', ?b \<mapsto> pb'), V(?dW \<mapsto> vW', ?db \<mapsto> vb'), S(?dW \<mapsto> sW', ?db \<mapsto> sb'))"
    and rules: "velocity_rule b2 vW gW vW'" "sq_velocity_rule b2 sW gW sW'"
      "param_rule lr b1 b2 eps t pW vW' sW' pW'"
      "velocity_rule b2 vb gb vb'" "sq_velocity_rule b2 sb gb sb'"
      "param_rule lr b1 b2 eps t pb vb' sb' pb'"
    by blast
  let ?P1 = "P(?W \<mapsto> pW', ?b \<mapsto> pb')"
  let ?V1 = "V(?dW \<mapsto> vW', ?db \<mapsto> vb')"
  let ?S1 = "S(?dW \<mapsto> sW', ?db \<mapsto> sb')"
  have other: "?P1 (''W'' @ str (j + 1)) = P (''W'' @ str (j + 1))"
      "?P1 (''b'' @ str (j + 1)) = P (''b'' @ str (j + 1))"
      "?V1 (''dW'' @ str (j + 1)) = V (''dW'' @ str (j + 1))"
      "?V1 (''db'' @ str (j + 1)) = V (''db'' @ str (j + 1))"
      "?S1 (''dW'' @ str (j + 1)) = S (''dW'' @ str (j + 1))"
      "?S1 (''db'' @ str (j + 1)) = S (''db'' @ str (j + 1))"
    if "j \<in> set rest" for j
  proof -
    from that fresh have "j \<noteq> i" by auto
    then show "?P1 (''W'' @ str (j + 1)) = P (''W'' @ str (j + 1))"
      "?P1 (''b'' @ str (j + 1)) = P (''b'' @ str (j + 1))"
      "?V1 (''dW'' @ str (j + 1)) = V (''dW'' @ str (j + 1))"
      "?V1 (''db'' @ str (j + 1)) = V (''db'' @ str (j + 1))"
      "?S1 (''dW'' @ str (j + 1)) = S (''dW'' @ str (j + 1))"
      "?S1 (''db'' @ str (j + 1)) = S (''db'' @ str (j + 1))"
      by simp_all
  qed
  have "\<forall>j\<in>set rest.
           pair_ready ?P1 G ?V1 ?S1 (''W'' @ str (j + 1)) (''dW'' @ str (j + 1)) \<and>
           pair_ready ?P1 G ?V1 ?S1 (''b'' @ str (j + 1)) (''db'' @ str (j + 1))"
  proof
    fix j assume j: "j \<in> set rest"
    with Cons.prems have "pair_ready P G V S (''W'' @ str (j + 1)) (''dW'' @ str (j + 1))"
      "pair_ready P G V S (''b'' @ str (j + 1)) (''db'' @ str (j + 1))" by simp_all
    moreover have "pair_ready ?P1 G ?V1 ?S1 (''W'' @ str (j + 1)) (''dW'' @ str (j + 1)) =
        pair_ready P G V S (''W'' @ str (j + 1)) (''dW'' @ str (j + 1))"
      by (rule pair_ready_cong) (rule other [OF j])+
    moreover have "pair_ready ?P1 G ?V1 ?S1 (''b'' @ str (j + 1)) (''db'' @ str (j + 1)) =
        pair_ready P G V S (''b'' @ str (j + 1)) (''db'' @ str (j + 1))"
      by (rule pair_ready_cong) (rule other [OF j])+
    ultimately show "pair_ready ?P1 G ?V1 ?S1 (''W'' @ str (j + 1)) (''dW'' @ str (j + 1)) \<and>
           pair_ready ?P1 G ?V1 ?S1 (''b'' @ str (j + 1)) (''db'' @ str (j + 1))"
      by simp
  qed
  from Cons.IH [OF dist this] obtain P' V' S' where IH:
    "update_loop rest G t b1 b2 eps lr (?P1, ?V1, ?S1) = Inr (P', V', S')"
    "\<forall>j\<in>set rest.
        pair_updated lr b1 b2 eps t ?P1 G ?V1 ?S1 P' V' S' (''W'' @ str (j + 1)) (''dW'' @ str (j + 1)) \<and>
        pair_updated lr b1 b2 eps t ?P1 G ?V1 ?S1 P' V' S' (''b'' @ str (j + 1)) (''db'' @ str (j + 1))"
    "\<forall>k. (\<forall>j\<in>set rest. k \<noteq> ''W'' @ str (j + 1) \<and> k \<noteq> ''b'' @ str (j + 1)) \<longrightarrow> P' k = ?P1 k"
    "\<forall>k. (\<forall>j\<in>set rest. k \<noteq> ''dW'' @ str (j + 1) \<and> k \<noteq> ''db'' @ str (j + 1)) \<longrightarrow>
        V' k = ?V1 k \<and> S' k = ?S1 k"
    by (elim exE conjE) (rule that)
  have res: "update_loop (i # rest) G t b1 b2 eps lr (P, V, S) = Inr (P', V', S')"
    using step IH(1) by simp
  have keep: "P' ?W = Some pW'" "P' ?b = Some pb'" "V' ?dW = Some vW'" "V' ?db = Some vb'"
    "S' ?dW = Some sW'" "S' ?db = Some sb'"
  proof -
    have "\<forall>j\<in>set rest. ?W \<noteq> ''W'' @ str (j + 1) \<and> ?W \<noteq> ''b'' @ str (j + 1)"
      "\<forall>j\<in>set rest. ?b \<noteq> ''W'' @ str (j + 1) \<and> ?b \<noteq> ''b'' @ str (j + 1)"
      "\<forall>j\<in>set rest. ?dW \<noteq> ''dW'' @ str (j + 1) \<and> ?dW \<noteq> ''db'' @ str (j + 1)"
      "\<forall>j\<in>set rest. ?db \<noteq> ''dW'' @ str (j + 1) \<and> ?db \<noteq> ''db'' @ str (j + 1)"
      using fresh by auto
    with IH(3,4) have "P' ?W = ?P1 ?W" "P' ?b = ?P1 ?b" "V' ?dW = ?V1 ?dW" "V' ?db = ?V1 ?db"
      "S' ?dW = ?S1 ?dW" "S' ?db = ?S1 ?db" by blast+
    then show "P' ?W = Some pW'" "P' ?b = Some pb'" "V' ?dW = Some vW'" "V' ?db = Some vb'"
      "S' ?dW = Some sW'" "S' ?db = Some sb'" by simp_all
  qed
  have upd_i: "pair_updated lr b1 b2 eps t P G V S P' V' S' ?W ?dW"
    "pair_updated lr b1 b2 eps t P G V S P' V' S' ?b ?db"
    using W(1-4) b(1-4) keep rules by (auto intro: pair_updatedI)
  have upd: "\<forall>j\<in>set (i # rest).
      pair_updated lr b1 b2 eps t P G V S P' V' S' (''W'' @ str (j + 1)) (''dW'' @ str (j + 1)) \<and>
      pair_updated lr b1 b2 eps t P G V S P' V' S' (''b'' @ str (j + 1)) (''db'' @ str (j + 1))"
  proof
    fix j assume "j \<in> set (i # rest)"
    then consider "j = i" | "j \<in> set rest" by auto
    then show "pair_updated lr b1 b2 eps t P G V S P' V' S' (''W'' @ str (j + 1)) (''dW'' @ str (j + 1)) \<and>
      pair_updated lr b1 b2 eps t P G V S P' V' S' (''b'' @ str (j + 1)) (''db'' @ str (j + 1))"
    proof cases
      case 1
      with upd_i show ?thesis by simp
    next
      case 2
      have "pair_updated lr b1 b2 eps t ?P1 G ?V1 ?S1 P' V' S' (''W'' @ str (j + 1)) (''dW'' @ str (j + 1)) =
          pair_updated lr b1 b2 eps t P G V S P' V' S' (''W'' @ str (j + 1)) (''dW'' @ str (j + 1))"
        by (rule pair_updated_cong) (rule other [OF 2])+
      moreover have "pair_updated lr b1 b2 eps t ?P1 G ?V1 ?S1 P' V' S' (''b'' @ str (j + 1)) (''db'' @ str (j + 1)) =
          pair_updated lr b1 b2 eps t P G V S P' V' S' (''b'' @ str (j + 1)) (''db'' @ str (j + 1))"
        by (rule pair_updated_cong) (rule other [OF 2])+
      ultimately show ?thesis using IH(2) 2 by simp
    qed
  qed
  have un1: "\<forall>k. (\<forall>j\<in>set (i # rest). k \<noteq> ''W'' @ str (j + 1) \<and> k \<noteq> ''b'' @ str (j + 1)) \<longrightarrow> P' k = P k"
    using IH(3) by auto
  have un2: "\<forall>k. (\<forall>j\<in>set (i # rest). k \<noteq> ''dW'' @ str (j + 1) \<and> k \<noteq> ''db'' @ str (j + 1)) \<longrightarrow>
        V' k = V k \<and> S' k = S k"
    using IH(4) by auto
  from res upd un1 un2 show ?case by blast
qed

lemma update_parameters_velocity_result:
  assumes nz: "1 + decay_rate * of_int epoch \<noteq> 0"
    and ready: "\<forall>i. 1 \<le> i \<and> i \<le> len P div 2 \<longrightarrow>
        pair_ready P G V S (''W'' @ str i) (''dW'' @ str i) \<and>
        pair_ready P G V S (''b'' @ str i) (''db'' @ str i)"
  shows "\<exists>P' V' S'.
      update_parameters_velocity P G epoch V S t b1 b2 eps lr decay_rate =
        Inr (P', lr / (1 + decay_rate * of_int epoch), V', S') \<and>
      (\<forall>i. 1 \<le> i \<and> i \<le> len P div 2 \<longrightarrow>
        pair_updated lr b1 b2 eps t P G V S P' V' S' (''W'' @ str i) (''dW'' @ str i) \<and>
        pair_updated lr b1 b2 eps t P G V S P' V' S' (''b'' @ str i) (''db'' @ str i)) \<and>
      (\<forall>k. (\<forall>i. 1 \<le> i \<and> i \<le> len P div 2 \<longrightarrow> k \<noteq> ''W'' @ str i \<and> k \<noteq> ''b'' @ str i)
          \<longrightarrow> P' k = P k) \<and>
      (\<forall>k. (\<forall>i. 1 \<le> i \<and> i \<le> len P div 2 \<longrightarrow> k \<noteq> ''dW'' @ str i \<and> k \<noteq> ''db'' @ str i)
          \<longrightarrow> V' k = V k \<and> S' k = S k)"
proof -
  define L where "L = len P div 2"
  have idx: "(\<forall>i\<in>set [0..<L]. Q (i + 1)) \<longleftrightarrow> (\<forall>i. 1 \<le> i \<and> i \<le> L \<longrightarrow> Q i)" for Q
  proof
    assume a: "\<forall>i\<in>set [0..<L]. Q (i + 1)"
    show "\<forall>i. 1 \<le> i \<and> i \<le> L \<longrightarrow> Q i"
    proof (intro allI impI)
      fix i assume i: "1 \<le> i \<and> i \<le> L"
      then have "i - 1 \<in> set [0..<L]" by auto
      with a have "Q (i - 1 + 1)" by blast
      with i show "Q i" by simp
    qed
  next
    assume "\<forall>i. 1 \<le> i \<and> i \<le> L \<longrightarrow> Q i"
    then show "\<forall>i\<in>set [0..<L]. Q (i + 1)" by auto
  qed
  have "\<forall>i\<in>set [0..<L].
           pair_ready P G V S (''W'' @ str (i + 1)) (''dW'' @ str (i + 1)) \<and>
           pair_ready P G V S (''b'' @ str (i + 1)) (''db'' @ str (i + 1))"
    using ready unfolding L_def [symmetric]
    by (subst idx [of "\<lambda>i. pair_ready P G V S (''W'' @ str i) (''dW'' @ str i) \<and>
           pair_ready P G V S (''b'' @ str i) (''db'' @ str i)"])
  from update_loop_result [OF distinct_upt this, of t b1 b2 eps lr]
  obtain P' V' S' where r: "update_loop [0..<L] G t b1 b2 eps lr (P, V, S) = Inr (P', V', S')"
    "\<forall>i\<in>set [0..<L].
        pair_updated lr b1 b2 eps t P G V S P' V' S' (''W'' @ str (i + 1)) (''dW'' @ str (i + 1)) \<and>
        pair_updated lr b1 b2 eps t P G V S P' V' S' (''b'' @ str (i + 1)) (''db'' @ str (i + 1))"
    "\<forall>k. (\<forall>i\<in>set [0..<L]. k \<noteq> ''W'' @ str (i + 1) \<and> k \<noteq> ''b'' @ str (i + 1)) \<longrightarrow> P' k = P k"
    "\<forall>k. (\<forall>i\<in>set [0..<L]. k \<noteq> ''dW'' @ str (i + 1) \<and> k \<noteq> ''db'' @ str (i + 1)) \<longrightarrow>
         V' k = V k \<and> S' k = S k"
    by (elim exE conjE) (rule that)
  have res: "update_parameters_velocity P G epoch V S t b1 b2 eps lr decay_rate =
        Inr (P', lr / (1 + decay_rate * of_int epoch), V', S')"
    using nz r(1) by (simp add: update_parameters_velocity_def Let_def L_def)
  have u: "\<forall>i. 1 \<le> i \<and> i \<le> L \<longrightarrow>
        pair_updated lr b1 b2 eps t P G V S P' V' S' (''W'' @ str i) (''dW'' @ str i) \<and>
        pair_updated lr b1 b2 eps t P G V S P' V' S' (''b'' @ str i) (''db'' @ str i)"
    using r(2)
    by (subst (asm) idx [of "\<lambda>i. pair_updated lr b1 b2 eps t P G V S P' V' S' (''W'' @ str i) (''dW'' @ str i) \<and>
        pair_updated lr b1 b2 eps t P G V S P' V' S' (''b'' @ str i) (''db'' @ str i)"])
  have k1: "\<forall>k. (\<forall>i. 1 \<le> i \<and> i \<le> L \<longrightarrow> k \<noteq> ''W'' @ str i \<and> k \<noteq> ''b'' @ str i) \<longrightarrow> P' k = P k"
  proof (intro allI impI)
    fix k assume "\<forall>i. 1 \<le> i \<and> i \<le> L \<longrightarrow> k \<noteq> ''W'' @ str i \<and> k \<noteq> ''b'' @ str i"
    then have "\<forall>i\<in>set [0..<L]. k \<noteq> ''W'' @ str (i + 1) \<and> k \<noteq> ''b'' @ str (i + 1)"
      by (subst idx [of "\<lambda>i. k \<noteq> ''W'' @ str i \<and> k \<noteq> ''b'' @ str i"])
    with r(3) show "P' k = P k" by blast
  qed
  have k2: "\<forall>k. (\<forall>i. 1 \<le> i \<and> i \<le> L \<longrightarrow> k \<noteq> ''dW'' @ str i \<and> k \<noteq> ''db'' @ str i) \<longrightarrow>
      V' k = V k \<and> S' k = S k"
  proof (intro allI impI)
    fix k assume "\<forall>i. 1 \<le> i \<and> i \<le> L \<longrightarrow> k \<noteq> ''dW'' @ str i \<and> k \<noteq> ''db'' @ str i"
    then have "\<forall>i\<in>set [0..<L]. k \<noteq> ''dW'' @ str (i + 1) \<and> k \<noteq> ''db'' @ str (i + 1)"
      by (subst idx [of "\<lambda>i. k \<noteq> ''dW'' @ str i \<and> k \<noteq> ''db'' @ str i"])
    with r(4) show "V' k = V k \<and> S' k = S k" by blast
  qed
  from res u k1 k2 show ?thesis unfolding L_def by blast
qed

lemma pair_updatedD:
  "pair_updated lr b1 b2 eps t P G V S P' V' S' k dk \<Longrightarrow>
   \<exists>p g v s p' v' s'. P k = Some p \<and> G dk = Some g \<and> V dk = Some v \<and> S dk = Some s \<and>
     P' k = Some p' \<and> V' dk = Some v' \<and> S' dk = Some s' \<and>
     velocity_rule b2 v g v' \<and> sq_velocity_rule b2 s g s' \<and> param_rule lr b1 b2 eps t p v' s' p'"
  by (auto simp: pair_updated_def split: option.splits)

lemma power_less_one:
  fixes b :: real
  assumes "1 \<le> t" "0 \<le> b" "b < 1"
  shows "0 < 1 - b ^ t"
proof -
  from assms have "b ^ t \<le> b ^ 1" by (intro power_decreasing) auto
  with assms show ?thesis by simp
qed

lemma decay_denominator:
  fixes decay_rate :: real
  assumes "0 \<le> decay_rate" "0 \<le> (epoch::int)"
  shows "1 + decay_rate * of_int epoch \<noteq> 0"
proof -
  from assms have "0 \<le> decay_rate * of_int epoch" by simp
  then show ?thesis by linarith
qed

lemma update_alpha_independent:
  assumes "update_parameters_velocity P G epoch V S t b1 b2 eps lr decay_rate = Inr (P', a, V', S')"
    and "1 + decay_rate' * of_int epoch' \<noteq> 0"
  shows "update_parameters_velocity P G epoch' V S t b1 b2 eps lr decay_rate' =
           Inr (P', lr / (1 + decay_rate' * of_int epoch'), V', S')"
proof -
  from assms(1) have "update_loop [0..<len P div 2] G t b1 b2 eps lr (P, V, S) = Inr (P', V', S')"
    by (cases "update_loop [0..<len P div 2] G t b1 b2 eps lr (P, V, S)")
       (auto simp: update_parameters_velocity_def Let_def split: if_splits)
  with assms(2) show ?thesis
    by (simp add: update_parameters_velocity_def Let_def)
qed

lemma len_two: "k1 \<noteq> k2 \<Longrightarrow> len [k1 \<mapsto> a, k2 \<mapsto> b] = 2"
  by (simp add: len_def)

text \<open>
  Claim C1. For step counters \<open>t \<ge> 1\<close>, decay factors in \<open>[0, 1)\<close>, \<open>\<epsilon> > 0\<close> and
  non-negative squared moments, one call of \<open>update_parameters_velocity\<close> returns, and
  for the weight and the bias of every layer it changed the accumulators and the
  parameter by exactly the formulas above: both moments decay with \<open>\<beta>2\<close>, the first
  moment is corrected by \<open>1 - \<beta>1\<^sup>t\<close>, and the step is scaled by the raw
  \<open>learning_rate\<close>. The decayed \<open>alpha = learning_rate / (1 + decay_rate * epoch)\<close> is
  returned, and the new parameters and accumulators are the same for every other
  \<open>epoch\<close> and \<open>decay_rate\<close>. No divisor is zero and the squared moments stay
  non-negative.
\<close>

theorem update_rule_formulas:
  assumes t: "1 \<le> t" and b1: "0 \<le> beta1" "beta1 < 1" and b2: "0 \<le> beta2" "beta2 < 1"
    and eps: "0 < epsilon" and dec: "0 \<le> decay_rate" "0 \<le> epoch"
    and sv: "nonneg_entries svelocity"
    and ready: "\<forall>i. 1 \<le> i \<and> i \<le> len parameters div 2 \<longrightarrow>
        pair_ready parameters gradients velocity svelocity (''W'' @ str i) (''dW'' @ str i) \<and>
        pair_ready parameters gradients velocity svelocity (''b'' @ str i) (''db'' @ str i)"
  shows "\<exists>parameters' velocity' svelocity'.
      update_parameters_velocity parameters gradients epoch velocity svelocity t
          beta1 beta2 epsilon learning_rate decay_rate =
        Inr (parameters', learning_rate / (1 + decay_rate * of_int epoch), velocity', svelocity') \<and>
      (\<forall>i. 1 \<le> i \<and> i \<le> len parameters div 2 \<longrightarrow>
        pair_updated learning_rate beta1 beta2 epsilon t parameters gradients velocity svelocity
          parameters' velocity' svelocity' (''W'' @ str i) (''dW'' @ str i) \<and>
        pair_updated learning_rate beta1 beta2 epsilon t parameters gradients velocity svelocity
          parameters' velocity' svelocity' (''b'' @ str i) (''db'' @ str i)) \<and>
      0 < 1 - beta1 ^ t \<and> 0 < 1 - beta2 ^ t \<and> nonneg_entries svelocity' \<and>
      (\<forall>epoch' decay_rate'. 0 \<le> decay_rate' \<and> 0 \<le> epoch' \<longrightarrow>
        update_parameters_velocity parameters gradients epoch' velocity svelocity t
            beta1 beta2 epsilon learning_rate decay_rate' =
          Inr (parameters', learning_rate / (1 + decay_rate' * of_int epoch'), velocity', svelocity'))"
proof -
  define L where "L = len parameters div 2"
  have nz: "1 + decay_rate * of_int epoch \<noteq> 0" using dec by (rule decay_denominator)
  from update_parameters_velocity_result [OF nz ready, of t beta1 beta2 epsilon learning_rate]
  obtain P' V' S' where r:
    "update_parameters_velocity parameters gradients epoch velocity svelocity t
          beta1 beta2 epsilon learning_rate decay_rate =
        Inr (P', learning_rate / (1 + decay_rate * of_int epoch), V', S')"
    "\<forall>i. 1 \<le> i \<and> i \<le> len parameters div 2 \<longrightarrow>
        pair_updated learning_rate beta1 beta2 epsilon t parameters gradients velocity svelocity
          P' V' S' (''W'' @ str i) (''dW'' @ str i) \<and>
        pair_updated learning_rate beta1 beta2 epsilon t parameters gradients velocity svelocity
          P' V' S' (''b'' @ str i) (''db'' @ str i)"
    "\<forall>k. (\<forall>i. 1 \<le> i \<and> i \<le> len parameters div 2 \<longrightarrow> k \<noteq> ''dW'' @ str i \<and> k \<noteq> ''db'' @ str i)
          \<longrightarrow> V' k = velocity k \<and> S' k = svelocity k"
    by (elim exE conjE) (rule that)
  have d1: "0 < 1 - beta1 ^ t" using t b1 by (rule power_less_one)
  have d2: "0 < 1 - beta2 ^ t" using t b2 by (rule power_less_one)
  have nn: "nonneg_entries S'"
    unfolding nonneg_entries_def
  proof (intro allI impI)
    fix k s' r c
    assume k: "S' k = Some s'" and rc: "r < nrows s'" "c < ncols s'"
    show "0 \<le> item s' r c"
    proof (cases "\<forall>i. 1 \<le> i \<and> i \<le> len parameters div 2 \<longrightarrow> k \<noteq> ''dW'' @ str i \<and> k \<noteq> ''db'' @ str i")
      case True
      with r(3) k have "svelocity k = Some s'" by simp
      with sv rc show ?thesis by (simp add: nonneg_entries_def)
    next
      case False
      then obtain i where i: "1 \<le> i \<and> i \<le> len parameters div 2"
        and ki: "k = ''dW'' @ str i \<or> k = ''db'' @ str i" by blast
      from r(2) i ki obtain kp where
        "pair_updated learning_rate beta1 beta2 epsilon t parameters gradients velocity svelocity
          P' V' S' kp k" by blast
      from pair_updatedD [OF this] k obtain g s where
        s: "svelocity k = Some s" and rule: "sq_velocity_rule beta2 s g s'" by auto
      from rule rc have rc': "r < nrows s" "c < ncols s"
        by (simp_all add: sq_velocity_rule_def same_shape_def)
      with rule have "item s' r c = beta2 * item s r c + (1 - beta2) * (item g r c) ^ 2"
        by (simp add: sq_velocity_rule_def)
      moreover from sv s rc' have "0 \<le> item s r c" by (simp add: nonneg_entries_def)
      ultimately show ?thesis using b2 by simp
    qed
  qed
  have ind: "\<forall>epoch' decay_rate'. 0 \<le> decay_rate' \<and> 0 \<le> epoch' \<longrightarrow>
        update_parameters_velocity parameters gradients epoch' velocity svelocity t
            beta1 beta2 epsilon learning_rate decay_rate' =
          Inr (P', learning_rate / (1 + decay_rate' * of_int epoch'), V', S')"
  proof (intro allI impI)
    fix epoch' :: int and decay_rate' :: real
    assume "0 \<le> decay_rate' \<and> 0 \<le> epoch'"
    then have "1 + decay_rate' * of_int epoch' \<noteq> 0" by (intro decay_denominator) auto
    with r(1) show "update_parameters_velocity parameters gradients epoch' velocity svelocity t
            beta1 beta2 epsilon learning_rate decay_rate' =
          Inr (P', learning_rate / (1 + decay_rate' * of_int epoch'), V', S')"
      by (rule update_alpha_independent)
  qed
  from r(1,2) d1 d2 nn ind show ?thesis by blast
qed

theorem update_rule_formulas_witness:
  "\<exists>parameters' velocity' svelocity' w.
     update_parameters_velocity
       [''W1'' \<mapsto> np_array [[1]], ''b1'' \<mapsto> np_array [[2]]]
       [''dW1'' \<mapsto> np_array [[1]], ''db1'' \<mapsto> np_array [[0]]] 0
       [''dW1'' \<mapsto> np_array [[0]], ''db1'' \<mapsto> np_array [[0]]]
       [''dW1'' \<mapsto> np_array [[0]], ''db1'' \<mapsto> np_array [[0]]] 1
       (9 / 10) (999 / 1000) (1 / 10 ^ 8) (1 / 10000) (1 / 100)
     = Inr (parameters', 1 / 10000, velocity', svelocity') \<and>
     parameters' ''W1'' = Some w \<and>
     item w 0 0 = 1 - 1 / 10000 * (1 / 100) / sqrt (1 + 1 / 10 ^ 8)"
proof -
  let ?P = "[''W1'' \<mapsto> np_array [[1::real]], ''b1'' \<mapsto> np_array [[2]]]"
  let ?G = "[''dW1'' \<mapsto> np_array [[1::real]], ''db1'' \<mapsto> np_array [[0]]]"
  let ?V = "[''dW1'' \<mapsto> np_array [[0::real]], ''db1'' \<mapsto> np_array [[0]]]"
  have L: "len ?P div 2 = 1" by (simp add: len_two)
  have ready: "\<forall>i. 1 \<le> i \<and> i \<le> len ?P div 2 \<longrightarrow>
        pair_ready ?P ?G ?V ?V (''W'' @ str i) (''dW'' @ str i) \<and>
        pair_ready ?P ?G ?V ?V (''b'' @ str i) (''db'' @ str i)"
  proof (intro allI impI)
    fix i :: nat assume "1 \<le> i \<and> i \<le> len ?P div 2"
    with L have "i = 1" by simp
    then show "pair_ready ?P ?G ?V ?V (''W'' @ str i) (''dW'' @ str i) \<and>
        pair_ready ?P ?G ?V ?V (''b'' @ str i) (''db'' @ str i)"
      by (simp add: str_1 pair_ready_def same_shape_def np_array_def)
  qed
  have nn: "nonneg_entries ?V"
    by (simp add: nonneg_entries_def np_array_def)
  from update_rule_formulas [of 1 "9 / 10" "999 / 1000" "1 / 10 ^ 8" "1 / 100" 0 ?V ?P ?G ?V "1 / 10000",
      OF _ _ _ _ _ _ _ _ nn ready]
  obtain P' V' S' where r:
    "update_parameters_velocity ?P ?G 0 ?V ?V 1 (9 / 10) (999 / 1000) (1 / 10 ^ 8) (1 / 10000) (1 / 100)
       = Inr (P', 1 / 10000 / (1 + 1 / 100 * of_int 0), V', S')"
    "\<forall>i. 1 \<le> i \<and> i \<le> len ?P div 2 \<longrightarrow>
        pair_updated (1 / 10000) (9 / 10) (999 / 1000) (1 / 10 ^ 8) 1 ?P ?G ?V ?V
          P' V' S' (''W'' @ str i) (''dW'' @ str i) \<and>
        pair_updated (1 / 10000) (9 / 10) (999 / 1000) (1 / 10 ^ 8) 1 ?P ?G ?V ?V
          P' V' S' (''b'' @ str i) (''db'' @ str i)"
    by auto
  from r(2) L have "pair_updated (1 / 10000) (9 / 10) (999 / 1000) (1 / 10 ^ 8) 1 ?P ?G ?V ?V
          P' V' S' (''W'' @ str 1) (''dW'' @ str 1)" by simp
  from pair_updatedD [OF this] obtain w v' s' where w: "P' ''W1'' = Some w"
    and rules: "velocity_rule (999 / 1000) (np_array [[0]]) (np_array [[1]]) v'"
      "sq_velocity_rule (999 / 1000) (np_array [[0]]) (np_array [[1]]) s'"
      "param_rule (1 / 10000) (9 / 10) (999 / 1000) (1 / 10 ^ 8) 1 (np_array [[1]]) v' s' w"
    by (auto simp: str_1)
  from rules(1) have v: "item v' 0 0 = 1 / 1000"
    by (simp add: velocity_rule_def same_shape_def np_array_def)
  from rules(2) have s: "item s' 0 0 = 1 / 1000"
    by (simp add: sq_velocity_rule_def same_shape_def np_array_def)
  from rules(3) have "item w 0 0 = 1 - 1 / 10000 * (1 / 100) / sqrt (1 + 1 / 10 ^ 8)"
    by (simp add: param_rule_def same_shape_def np_array_def v s)
  with r(1) w show ?thesis by auto
qed

section \<open>A step with zero gradients\<close>

lemma velocity_loop_result:
  assumes "distinct ls"
    and "velocity_loop ls P (V, S) = Inr (V', S')"
  shows "(\<forall>i\<in>set ls. \<exists>pW pb.
            P (''W'' @ str (i + 1)) = Some pW \<and> P (''b'' @ str (i + 1)) = Some pb \<and>
            V' (''dW'' @ str (i + 1)) = Some (np_zeros_like pW) \<and>
            V' (''db'' @ str (i + 1)) = Some (np_zeros_like pb) \<and>
            S' (''dW'' @ str (i + 1)) = Some (np_zeros_like pW) \<and>
            S' (''db'' @ str (i + 1)) = Some (np_zeros_like pb)) \<and>
         (\<forall>k. (\<forall>i\<in>set ls. k \<noteq> ''dW'' @ str (i + 1) \<and> k \<noteq> ''db'' @ str (i + 1)) \<longrightarrow>
              V' k = V k \<and> S' k = S k)"
  using assms
proof (induction ls arbitrary: V S)
  case Nil
  then show ?case by simp
next
  case (Cons i rest)
  let ?W = "''W'' @ str (i + 1)" and ?b = "''b'' @ str (i + 1)"
  let ?dW = "''dW'' @ str (i + 1)" and ?db = "''db'' @ str (i + 1)"
  from Cons.prems have fresh: "i \<notin> set rest" and dist: "distinct rest" by simp_all
  from Cons.prems(2) obtain pW where pW: "P ?W = Some pW"
    by (cases "P ?W") (simp_all add: getitem_def)
  from Cons.prems(2) pW obtain pb where pb: "P ?b = Some pb"
    by (cases "P ?b") (simp_all add: getitem_def)
  let ?V1 = "V(?dW \<mapsto> np_zeros_like pW, ?db \<mapsto> np_zeros_like pb)"
  let ?S1 = "S(?dW \<mapsto> np_zeros_like pW, ?db \<mapsto> np_zeros_like pb)"
  from Cons.prems(2) pW pb have rest: "velocity_loop rest P (?V1, ?S1) = Inr (V', S')"
    by simp
  from Cons.IH [OF dist rest] have IH:
    "\<forall>j\<in>set rest. \<exists>pW pb.
            P (''W'' @ str (j + 1)) = Some pW \<and> P (''b'' @ str (j + 1)) = Some pb \<and>
            V' (''dW'' @ str (j + 1)) = Some (np_zeros_like pW) \<and>
            V' (''db'' @ str (j + 1)) = Some (np_zeros_like pb) \<and>
            S' (''dW'' @ str (j + 1)) = Some (np_zeros_like pW) \<and>
            S' (''db'' @ str (j + 1)) = Some (np_zeros_like pb)"
    "\<forall>k. (\<forall>j\<in>set rest. k \<noteq> ''dW'' @ str (j + 1) \<and> k \<noteq> ''db'' @ str (j + 1)) \<longrightarrow>
              V' k = ?V1 k \<and> S' k = ?S1 k"
    by blast+
  have "\<forall>j\<in>set rest. ?dW \<noteq> ''dW'' @ str (j + 1) \<and> ?dW \<noteq> ''db'' @ str (j + 1)"
    "\<forall>j\<in>set rest. ?db \<noteq> ''dW'' @ str (j + 1) \<and> ?db \<noteq> ''db'' @ str (j + 1)"
    using fresh by auto
  with IH(2) have "V' ?dW = ?V1 ?dW \<and> S' ?dW = ?S1 ?dW" "V' ?db = ?V1 ?db \<and> S' ?db = ?S1 ?db"
    by blast+
  then have here: "V' ?dW = Some (np_zeros_like pW)" "V' ?db = Some (np_zeros_like pb)"
    "S' ?dW = Some (np_zeros_like pW)" "S' ?db = Some (np_zeros_like pb)"
    by simp_all
  have a: "\<forall>j\<in>set (i # rest). \<exists>pW pb.
            P (''W'' @ str (j + 1)) = Some pW \<and> P (''b'' @ str (j + 1)) = Some pb \<and>
            V' (''dW'' @ str (j + 1)) = Some (np_zeros_like pW) \<and>
            V' (''db'' @ str (j + 1)) = Some (np_zeros_like pb) \<and>
            S' (''dW'' @ str (j + 1)) = Some (np_zeros_like pW) \<and>
            S' (''db'' @ str (j + 1)) = Some (np_zeros_like pb)"
    using IH(1) pW pb here by simp
  have b: "\<forall>k. (\<forall>j\<in>set (i # rest). k \<noteq> ''dW'' @ str (j + 1) \<and> k \<noteq> ''db'' @ str (j + 1)) \<longrightarrow>
              V' k = V k \<and> S' k = S k"
  proof (intro allI impI)
    fix k assume k: "\<forall>j\<in>set (i # rest). k \<noteq> ''dW'' @ str (j + 1) \<and> k \<noteq> ''db'' @ str (j + 1)"
    then have "\<forall>j\<in>set rest. k \<noteq> ''dW'' @ str (j + 1) \<and> k \<noteq> ''db'' @ str (j + 1)" by simp
    with IH(2) have "V' k = ?V1 k \<and> S' k = ?S1 k" by blast
    moreover from k have "k \<noteq> ?dW" "k \<noteq> ?db" by simp_all
    ultimately show "V' k = V k \<and> S' k = S k" by simp
  qed
  from a b show ?case by blast
qed

lemma upt_shift_iff: "(\<forall>i\<in>set [0..<L]. Q (i + 1)) \<longleftrightarrow> (\<forall>i. 1 \<le> i \<and> i \<le> L \<longrightarrow> Q i)"
proof
  assume a: "\<forall>i\<in>set [0..<L]. Q (i + 1)"
  show "\<forall>i. 1 \<le> i \<and> i \<le> L \<longrightarrow> Q i"
  proof (intro allI impI)
    fix i assume i: "1 \<le> i \<and> i \<le> L"
    then have "i - 1 \<in> set [0..<L]" by auto
    with a have "Q (i - 1 + 1)" by blast
    with i show "Q i" by simp
  qed
next
  assume "\<forall>i. 1 \<le> i \<and> i \<le> L \<longrightarrow> Q i"
  then show "\<forall>i\<in>set [0..<L]. Q (i + 1)" by auto
qed

lemma same_array_refl: "same_array A A"
  by (simp add: same_array_def)

lemma rel_option_same_array_refl: "rel_option same_array x x"
  by (cases x) (simp_all add: same_array_refl)

lemma zero_gradientD:
  "zero_gradient P G k dk \<Longrightarrow>
   \<exists>p g. P k = Some p \<and> G dk = Some g \<and> same_shape g p \<and>
     (\<forall>r<nrows g. \<forall>c<ncols g. item g r c = 0)"
  by (auto simp: zero_gradient_def split: option.splits)

lemma pair_readyI:
  "P k = Some p \<Longrightarrow> G dk = Some g \<Longrightarrow> V dk = Some v \<Longrightarrow> S dk = Some s \<Longrightarrow>
   same_shape g p \<Longrightarrow> same_shape v p \<Longrightarrow> same_shape s p \<Longrightarrow> pair_ready P G V S k dk"
  by (simp add: pair_ready_def)

lemma zero_step_pair:
  assumes upd: "pair_updated lr b1 b2 eps t P G V S P' V' S' k dk"
    and V: "V dk = Some (np_zeros_like p0)" and S: "S dk = Some (np_zeros_like p0)"
    and P: "P k = Some p0" and z: "zero_gradient P G k dk"
  shows "\<exists>p' v' s'. P' k = Some p' \<and> same_array p' p0 \<and> V' dk = Some v' \<and> S' dk = Some s' \<and>
           (\<forall>r<nrows v'. \<forall>c<ncols v'. item v' r c = 0) \<and>
           (\<forall>r<nrows s'. \<forall>c<ncols s'. item s' r c = 0)"
proof -
  from zero_gradientD [OF z] P obtain g where g: "G dk = Some g" "same_shape g p0"
    "\<forall>r<nrows g. \<forall>c<ncols g. item g r c = 0" by auto
  from pair_updatedD [OF upd] P V S g(1) obtain p' v' s' where
    new: "P' k = Some p'" "V' dk = Some v'" "S' dk = Some s'"
    and vr: "velocity_rule b2 (np_zeros_like p0) g v'"
    and sr: "sq_velocity_rule b2 (np_zeros_like p0) g s'"
    and pr: "param_rule lr b1 b2 eps t p0 v' s' p'" by auto
  have shp: "nrows v' = nrows p0" "ncols v' = ncols p0" "nrows s' = nrows p0" "ncols s' = ncols p0"
    "nrows g = nrows p0" "ncols g = ncols p0" "nrows p' = nrows p0" "ncols p' = ncols p0"
    using vr sr pr g(2)
    by (simp_all add: velocity_rule_def sq_velocity_rule_def param_rule_def same_shape_def
        np_zeros_like_def)
  have v0: "item v' r c = 0" if "r < nrows p0" "c < ncols p0" for r c
    using vr g(3) shp that by (simp add: velocity_rule_def np_zeros_like_def)
  have s0: "item s' r c = 0" if "r < nrows p0" "c < ncols p0" for r c
    using sr g(3) shp that by (simp add: sq_velocity_rule_def np_zeros_like_def)
  have "item p' r c = item p0 r c" if "r < nrows p0" "c < ncols p0" for r c
    using pr v0 [OF that] that by (simp add: param_rule_def)
  then have "same_array p' p0" using shp by (simp add: same_array_def)
  with new v0 s0 shp show ?thesis by simp
qed

text \<open>
  Claim C6. One call of \<open>update_parameters_velocity\<close> with step counter \<open>t = 1\<close>, the
  moment accumulators as \<open>initialize_velocity\<close> returns them and gradients that are zero
  in every entry (each of the shape of its parameter) leaves every parameter unchanged:
  the accumulators stay zero, and the step is zero divided by a positive root.
\<close>

theorem zero_gradient_keeps_parameters:
  assumes b1: "0 \<le> beta1" "beta1 < 1" and b2: "0 \<le> beta2" "beta2 < 1"
    and eps: "0 < epsilon" and dec: "0 \<le> decay_rate" "0 \<le> epoch"
    and init: "initialize_velocity parameters = Inr (velocity, svelocity)"
    and zero: "\<forall>i. 1 \<le> i \<and> i \<le> len parameters div 2 \<longrightarrow>
        zero_gradient parameters gradients (''W'' @ str i) (''dW'' @ str i) \<and>
        zero_gradient parameters gradients (''b'' @ str i) (''db'' @ str i)"
  shows "\<exists>parameters' alpha velocity' svelocity'.
      update_parameters_velocity parameters gradients epoch velocity svelocity 1
          beta1 beta2 epsilon learning_rate decay_rate =
        Inr (parameters', alpha, velocity', svelocity') \<and>
      (\<forall>k. rel_option same_array (parameters' k) (parameters k)) \<and>
      zero_entries velocity' \<and> zero_entries svelocity' \<and>
      0 < 1 - beta1 ^ 1 \<and> 0 < 1 - beta2 ^ 1 \<and> 0 < sqrt (0 / (1 - beta2 ^ 1) + epsilon)"
proof -
  define L where "L = len parameters div 2"
  let ?P = parameters and ?G = gradients and ?V = velocity and ?S = svelocity
  from init have vl: "velocity_loop [0..<L] ?P (Map.empty, Map.empty) = Inr (?V, ?S)"
    by (simp add: initialize_velocity_def Let_def L_def)
  from velocity_loop_result [OF distinct_upt vl]
  have i0: "\<forall>i\<in>set [0..<L]. \<exists>pW pb.
            ?P (''W'' @ str (i + 1)) = Some pW \<and> ?P (''b'' @ str (i + 1)) = Some pb \<and>
            ?V (''dW'' @ str (i + 1)) = Some (np_zeros_like pW) \<and>
            ?V (''db'' @ str (i + 1)) = Some (np_zeros_like pb) \<and>
            ?S (''dW'' @ str (i + 1)) = Some (np_zeros_like pW) \<and>
            ?S (''db'' @ str (i + 1)) = Some (np_zeros_like pb)"
    and i1: "\<forall>k. (\<forall>i\<in>set [0..<L]. k \<noteq> ''dW'' @ str (i + 1) \<and> k \<noteq> ''db'' @ str (i + 1)) \<longrightarrow>
              ?V k = Map.empty k \<and> ?S k = Map.empty k"
    by blast+
  have ini: "\<forall>i. 1 \<le> i \<and> i \<le> L \<longrightarrow> (\<exists>pW pb.
            ?P (''W'' @ str i) = Some pW \<and> ?P (''b'' @ str i) = Some pb \<and>
            ?V (''dW'' @ str i) = Some (np_zeros_like pW) \<and>
            ?V (''db'' @ str i) = Some (np_zeros_like pb) \<and>
            ?S (''dW'' @ str i) = Some (np_zeros_like pW) \<and>
            ?S (''db'' @ str i) = Some (np_zeros_like pb))"
    using i0
    by (subst (asm) upt_shift_iff [of L "\<lambda>i. \<exists>pW pb.
            ?P (''W'' @ str i) = Some pW \<and> ?P (''b'' @ str i) = Some pb \<and>
            ?V (''dW'' @ str i) = Some (np_zeros_like pW) \<and>
            ?V (''db'' @ str i) = Some (np_zeros_like pb) \<and>
            ?S (''dW'' @ str i) = Some (np_zeros_like pW) \<and>
            ?S (''db'' @ str i) = Some (np_zeros_like pb)"])
  have none: "?V k = None \<and> ?S k = None"
    if "\<forall>i. 1 \<le> i \<and> i \<le> L \<longrightarrow> k \<noteq> ''dW'' @ str i \<and> k \<noteq> ''db'' @ str i" for k
  proof -
    from that have "\<forall>i\<in>set [0..<L]. k \<noteq> ''dW'' @ str (i + 1) \<and> k \<noteq> ''db'' @ str (i + 1)"
      by (subst upt_shift_iff [of L "\<lambda>i. k \<noteq> ''dW'' @ str i \<and> k \<noteq> ''db'' @ str i"])
    with i1 show ?thesis by simp
  qed
  have ready: "\<forall>i. 1 \<le> i \<and> i \<le> len ?P div 2 \<longrightarrow>
        pair_ready ?P ?G ?V ?S (''W'' @ str i) (''dW'' @ str i) \<and>
        pair_ready ?P ?G ?V ?S (''b'' @ str i) (''db'' @ str i)"
  proof (intro allI impI)
    fix i assume i: "1 \<le> i \<and> i \<le> len ?P div 2"
    with ini obtain pW pb where p: "?P (''W'' @ str i) = Some pW" "?P (''b'' @ str i) = Some pb"
      "?V (''dW'' @ str i) = Some (np_zeros_like pW)" "?V (''db'' @ str i) = Some (np_zeros_like pb)"
      "?S (''dW'' @ str i) = Some (np_zeros_like pW)" "?S (''db'' @ str i) = Some (np_zeros_like pb)"
      unfolding L_def by blast
    from zero i have zW: "zero_gradient ?P ?G (''W'' @ str i) (''dW'' @ str i)"
      and zb: "zero_gradient ?P ?G (''b'' @ str i) (''db'' @ str i)" by simp_all
    from zero_gradientD [OF zW] p(1) obtain gW where gW: "?G (''dW'' @ str i) = Some gW"
      "same_shape gW pW" by auto
    from zero_gradientD [OF zb] p(2) obtain gb where gb: "?G (''db'' @ str i) = Some gb"
      "same_shape gb pb" by auto
    have z: "same_shape (np_zeros_like pW) pW" "same_shape (np_zeros_like pb) pb"
      by (simp_all add: same_shape_def np_zeros_like_def)
    show "pair_ready ?P ?G ?V ?S (''W'' @ str i) (''dW'' @ str i) \<and>
        pair_ready ?P ?G ?V ?S (''b'' @ str i) (''db'' @ str i)"
      using p gW gb z by (simp add: pair_readyI)
  qed
  have nz: "1 + decay_rate * of_int epoch \<noteq> 0" using dec by (rule decay_denominator)
  from update_parameters_velocity_result [OF nz ready, of 1 beta1 beta2 epsilon learning_rate]
  obtain P' V' S' where r:
    "update_parameters_velocity ?P ?G epoch ?V ?S 1 beta1 beta2 epsilon learning_rate decay_rate =
        Inr (P', learning_rate / (1 + decay_rate * of_int epoch), V', S')"
    "\<forall>i. 1 \<le> i \<and> i \<le> len ?P div 2 \<longrightarrow>
        pair_updated learning_rate beta1 beta2 epsilon 1 ?P ?G ?V ?S P' V' S'
          (''W'' @ str i) (''dW'' @ str i) \<and>
        pair_updated learning_rate beta1 beta2 epsilon 1 ?P ?G ?V ?S P' V' S'
          (''b'' @ str i) (''db'' @ str i)"
    "\<forall>k. (\<forall>i. 1 \<le> i \<and> i \<le> len ?P div 2 \<longrightarrow> k \<noteq> ''W'' @ str i \<and> k \<noteq> ''b'' @ str i)
          \<longrightarrow> P' k = ?P k"
    "\<forall>k. (\<forall>i. 1 \<le> i \<and> i \<le> len ?P div 2 \<longrightarrow> k \<noteq> ''dW'' @ str i \<and> k \<noteq> ''db'' @ str i)
          \<longrightarrow> V' k = ?V k \<and> S' k = ?S k"
    by (elim exE conjE) (rule that)
  have pairs: "\<exists>p0 p' v' s'. ?P k = Some p0 \<and> P' k = Some p' \<and> same_array p' p0 \<and>
        V' dk = Some v' \<and> S' dk = Some s' \<and>
        (\<forall>r<nrows v'. \<forall>c<ncols v'. item v' r c = 0) \<and>
        (\<forall>r<nrows s'. \<forall>c<ncols s'. item s' r c = 0)"
    if i: "1 \<le> i \<and> i \<le> len ?P div 2"
      and k: "(k, dk) = (''W'' @ str i, ''dW'' @ str i) \<or> (k, dk) = (''b'' @ str i, ''db'' @ str i)"
    for i k dk
  proof -
    from ini i obtain pW pb where p: "?P (''W'' @ str i) = Some pW" "?P (''b'' @ str i) = Some pb"
      "?V (''dW'' @ str i) = Some (np_zeros_like pW)" "?V (''db'' @ str i) = Some (np_zeros_like pb)"
      "?S (''dW'' @ str i) = Some (np_zeros_like pW)" "?S (''db'' @ str i) = Some (np_zeros_like pb)"
      unfolding L_def by blast
    from k show ?thesis
    proof
      assume "(k, dk) = (''W'' @ str i, ''dW'' @ str i)"
      then have e: "k = ''W'' @ str i" "dk = ''dW'' @ str i" by simp_all
      from r(2) i have u: "pair_updated learning_rate beta1 beta2 epsilon 1 ?P ?G ?V ?S P' V' S' k dk"
        unfolding e by simp
      from zero i have z: "zero_gradient ?P ?G k dk" unfolding e by simp
      from zero_step_pair [OF u _ _ _ z, of pW] p(1,3,5) show ?thesis unfolding e by simp
    next
      assume "(k, dk) = (''b'' @ str i, ''db'' @ str i)"
      then have e: "k = ''b'' @ str i" "dk = ''db'' @ str i" by simp_all
      from r(2) i have u: "pair_updated learning_rate beta1 beta2 epsilon 1 ?P ?G ?V ?S P' V' S' k dk"
        unfolding e by simp
      from zero i have z: "zero_gradient ?P ?G k dk" unfolding e by simp
      from zero_step_pair [OF u _ _ _ z, of pb] p(2,4,6) show ?thesis unfolding e by simp
    qed
  qed
  have same: "\<forall>k. rel_option same_array (P' k) (?P k)"
  proof
    fix k
    show "rel_option same_array (P' k) (?P k)"
    proof (cases "\<forall>i. 1 \<le> i \<and> i \<le> len ?P div 2 \<longrightarrow> k \<noteq> ''W'' @ str i \<and> k \<noteq> ''b'' @ str i")
      case True
      with r(3) have "P' k = ?P k" by simp
      then show ?thesis by (simp add: rel_option_same_array_refl)
    next
      case False
      then obtain i where i: "1 \<le> i \<and> i \<le> len ?P div 2"
        and "k = ''W'' @ str i \<or> k = ''b'' @ str i" by blast
      then obtain dk where "(k, dk) = (''W'' @ str i, ''dW'' @ str i) \<or>
          (k, dk) = (''b'' @ str i, ''db'' @ str i)" by auto
      from pairs [OF i this] show ?thesis by auto
    qed
  qed
  have zeros: "(\<forall>r<nrows v'. \<forall>c<ncols v'. item v' r c = 0) \<and>
      (\<forall>r<nrows s'. \<forall>c<ncols s'. item s' r c = 0)"
    if v: "V' dk = Some v'" and s: "S' dk = Some s'" for dk v' s'
  proof (cases "\<forall>i. 1 \<le> i \<and> i \<le> len ?P div 2 \<longrightarrow> dk \<noteq> ''dW'' @ str i \<and> dk \<noteq> ''db'' @ str i")
    case True
    with r(4) none [of dk] v show ?thesis unfolding L_def by simp
  next
    case False
    then obtain i where i: "1 \<le> i \<and> i \<le> len ?P div 2"
      and "dk = ''dW'' @ str i \<or> dk = ''db'' @ str i" by blast
    then obtain k where "(k, dk) = (''W'' @ str i, ''dW'' @ str i) \<or>
          (k, dk) = (''b'' @ str i, ''db'' @ str i)" by auto
    from pairs [OF i this] v s show ?thesis by auto
  qed
  have both: "V' dk \<noteq> None \<longleftrightarrow> S' dk \<noteq> None" for dk
  proof (cases "\<forall>i. 1 \<le> i \<and> i \<le> len ?P div 2 \<longrightarrow> dk \<noteq> ''dW'' @ str i \<and> dk \<noteq> ''db'' @ str i")
    case True
    with r(4) none [of dk] show ?thesis unfolding L_def by simp
  next
    case False
    then obtain i where i: "1 \<le> i \<and> i \<le> len ?P div 2"
      and "dk = ''dW'' @ str i \<or> dk = ''db'' @ str i" by blast
    then obtain k where "(k, dk) = (''W'' @ str i, ''dW'' @ str i) \<or>
          (k, dk) = (''b'' @ str i, ''db'' @ str i)" by auto
    from pairs [OF i this] show ?thesis by auto
  qed
  have zv: "zero_entries V'"
    unfolding zero_entries_def
  proof (intro allI impI)
    fix k v r c assume v: "V' k = Some v" and rc: "r < nrows v" "c < ncols v"
    with both [of k] obtain s where "S' k = Some s" by auto
    with zeros [of k v s] v rc show "item v r c = 0" by simp
  qed
  have zs: "zero_entries S'"
    unfolding zero_entries_def
  proof (intro allI impI)
    fix k s r c assume s: "S' k = Some s" and rc: "r < nrows s" "c < ncols s"
    with both [of k] obtain v where "V' k = Some v" by auto
    with zeros [of k v s] s rc show "item s r c = 0" by simp
  qed
  have pos: "0 < 1 - beta1 ^ 1 \<and> 0 < 1 - beta2 ^ 1 \<and> 0 < sqrt (0 / (1 - beta2 ^ 1) + epsilon)"
    using b1 b2 eps by simp
  from r(1) same zv zs pos show ?thesis by blast
qed

theorem zero_gradient_keeps_parameters_witness:
  "\<exists>parameters' alpha velocity' svelocity'.
     update_parameters_velocity
       [''W1'' \<mapsto> np_array [[1, 2]], ''b1'' \<mapsto> np_array [[3]]]
       [''dW1'' \<mapsto> np_array [[0, 0]], ''db1'' \<mapsto> np_array [[0]]] 0
       [''dW1'' \<mapsto> np_zeros_like (np_array [[1, 2]]), ''db1'' \<mapsto> np_zeros_like (np_array [[3]])]
       [''dW1'' \<mapsto> np_zeros_like (np_array [[1, 2]]), ''db1'' \<mapsto> np_zeros_like (np_array [[3]])]
       1 (9 / 10) (999 / 1000) (1 / 10 ^ 8) (1 / 10000) (1 / 100)
     = Inr (parameters', alpha, velocity', svelocity') \<and>
     rel_option same_array (parameters' ''W1'') (Some (np_array [[1, 2]])) \<and>
     rel_option same_array (parameters' ''b1'') (Some (np_array [[3]]))"
proof -
  let ?P = "[''W1'' \<mapsto> np_array [[1, 2::real]], ''b1'' \<mapsto> np_array [[3]]]"
  let ?G = "[''dW1'' \<mapsto> np_array [[0, 0::real]], ''db1'' \<mapsto> np_array [[0]]]"
  let ?V = "[''dW1'' \<mapsto> np_zeros_like (np_array [[1, 2]]),
             ''db1'' \<mapsto> np_zeros_like (np_array [[3]])]"
  have L: "len ?P div 2 = 1" by (simp add: len_two)
  have init: "initialize_velocity ?P = Inr (?V, ?V)"
    by (simp add: initialize_velocity_def L str_1)
  have zero: "\<forall>i. 1 \<le> i \<and> i \<le> len ?P div 2 \<longrightarrow>
        zero_gradient ?P ?G (''W'' @ str i) (''dW'' @ str i) \<and>
        zero_gradient ?P ?G (''b'' @ str i) (''db'' @ str i)"
  proof (intro allI impI)
    fix i :: nat assume "1 \<le> i \<and> i \<le> len ?P div 2"
    with L have "i = 1" by simp
    then show "zero_gradient ?P ?G (''W'' @ str i) (''dW'' @ str i) \<and>
        zero_gradient ?P ?G (''b'' @ str i) (''db'' @ str i)"
      by (simp add: str_1 zero_gradient_def same_shape_def np_array_def less_Suc_eq)
  qed
  from zero_gradient_keeps_parameters [of "9 / 10" "999 / 1000" "1 / 10 ^ 8" "1 / 100" 0 ?P ?V ?V ?G
      "1 / 10000", OF _ _ _ _ _ _ _ init zero]
  obtain P' a V' S' where
    "update_parameters_velocity ?P ?G 0 ?V ?V 1 (9 / 10) (999 / 1000) (1 / 10 ^ 8) (1 / 10000) (1 / 100)
       = Inr (P', a, V', S')"
    "\<forall>k. rel_option same_array (P' k) (?P k)"
    by auto
  moreover from this(2) have "rel_option same_array (P' ''W1'') (?P ''W1'')"
    "rel_option same_array (P' ''b1'') (?P ''b1'')" by blast+
  ultimately show ?thesis by auto
qed

section \<open>The training loop\<close>

lemma bnd_eq_Inr: "bnd m f = Inr y \<longleftrightarrow> (\<exists>x. m = Inr x \<and> f x = Inr y)"
  by (cases m) simp_all

lemma bnd_assoc: "bnd (bnd m f) g = bnd m (\<lambda>x. bnd (f x) g)"
  by (cases m) simp_all

lemma np_split_length:
  "np_split A sections = Inr xs \<Longrightarrow> 0 < sections \<and> length xs = nat sections"
  by (auto simp: np_split_def Let_def split: if_splits)

lemma np_split_uneven:
  "int (ncols A) mod sections \<noteq> 0 \<Longrightarrow>
   np_split A sections = Inl (if sections = 0 then ZeroDivisionError else ValueError)"
  by (simp add: np_split_def)

text \<open>
  Claim C9. When the number of training samples is not evenly divisible by
  \<open>batch_size\<close>, \<open>np.split\<close> raises and the training run fails in its set-up, where the
  partition is made, before the loops with their forward passes and parameter updates
  begin.
\<close>

theorem uneven_split_fails:
  assumes "int (ncols X) mod batch_size \<noteq> 0"
  shows "np_split X batch_size = Inl (if batch_size = 0 then ZeroDivisionError else ValueError) \<and>
         (\<exists>e. network_setup normal seed0 X Y net_dims learning_rate batch_size = Inl e \<and>
              multi_layer_network normal seed0 X Y validation_data validation_label net_dims
                num_iterations learning_rate decay_rate batch_size = Inl e)"
proof
  from assms show s: "np_split X batch_size =
      Inl (if batch_size = 0 then ZeroDivisionError else ValueError)"
    by (rule np_split_uneven)
  have "\<exists>e. network_setup normal seed0 X Y net_dims learning_rate batch_size = Inl e"
  proof (cases "initialize_multilayer_weights normal seed0 net_dims")
    case (Inl e)
    then show ?thesis by (simp add: network_setup_def)
  next
    case (Inr parameters)
    show ?thesis
    proof (cases "initialize_velocity parameters")
      case (Inl e)
      with Inr show ?thesis by (simp add: network_setup_def)
    next
      case v: (Inr vs)
      with Inr s show ?thesis by (cases vs) (simp add: network_setup_def)
    qed
  qed
  then obtain e where e: "network_setup normal seed0 X Y net_dims learning_rate batch_size = Inl e"
    by blast
  then have "multi_layer_network normal seed0 X Y validation_data validation_label net_dims
                num_iterations learning_rate decay_rate batch_size = Inl e"
    by (simp add: multi_layer_network_def)
  with e show "\<exists>e. network_setup normal seed0 X Y net_dims learning_rate batch_size = Inl e \<and>
              multi_layer_network normal seed0 X Y validation_data validation_label net_dims
                num_iterations learning_rate decay_rate batch_size = Inl e"
    by blast
qed

theorem uneven_split_fails_witness:
  "np_split (np_array [[1, 2, 3::real]]) 2 = Inl ValueError \<and>
   (\<exists>e. multi_layer_network (\<lambda>g scale r c. (\<lambda>i j. 0, g)) (0::nat)
          (np_array [[1, 2, 3]]) (np_array [[0, 1, 2]]) (np_array [[1]]) (np_array [[0]])
          [1, 10] 1 (1 / 100) (1 / 100) 2 = Inl e)"
proof -
  have "int (ncols (np_array [[1, 2, 3::real]])) mod 2 \<noteq> 0" by (simp add: np_array_def)
  from uneven_split_fails [OF this, of "\<lambda>g scale r c. (\<lambda>i j. 0, g)" "0::nat"
      "np_array [[0, 1, 2]]" "[1, 10]" "1 / 100" "np_array [[1]]" "np_array [[0]]" 1 "1 / 100"]
  show ?thesis by auto
qed

end
